theory Spec2Isabelle
  imports Main "HOL-Library.AList" "HOL-Library.Word"
begin

unbundle bit_operations_syntax

section \<open>Python string operations used by the command router\<close>

text \<open>
  A Python \<open>str\<close> is modelled as a \<open>string\<close>; a \<open>char\<close> stands for the code point of
  the same number (0 to 255). The functions below follow \<open>str.lower\<close>, \<open>str.strip\<close>,
  \<open>str.startswith\<close>, \<open>str.split(sep, maxsplit)\<close> and \<open>str.join\<close> on that range.
\<close>

definition is_upper :: "char \<Rightarrow> bool" where
  "is_upper c =
     (let n = (of_char c :: nat)
      in (65 \<le> n \<and> n \<le> 90) \<or> (192 \<le> n \<and> n \<le> 222 \<and> n \<noteq> 215))"

definition lower_char :: "char \<Rightarrow> char" where
  \<comment> \<open>an upper-case code point plus 32: its bit of weight 32 is clear, and is set\<close>
  "lower_char c =
     (if is_upper c
      then (case c of Char b0 b1 b2 b3 b4 b5 b6 b7 \<Rightarrow> Char b0 b1 b2 b3 b4 True b6 b7)
      else c)"

definition py_lower :: "string \<Rightarrow> string" where
  "py_lower s = map lower_char s"

definition is_space :: "char \<Rightarrow> bool" where
  \<comment> \<open>the code points below 256 for which \<open>str.isspace\<close> holds\<close>
  "is_space c =
     (let n = (of_char c :: nat)
      in (9 \<le> n \<and> n \<le> 13) \<or> (28 \<le> n \<and> n \<le> 32) \<or> n = 133 \<or> n = 160)"

definition py_strip :: "string \<Rightarrow> string" where
  "py_strip s = rev (dropWhile is_space (rev (dropWhile is_space s)))"

definition py_startswith :: "string \<Rightarrow> string \<Rightarrow> bool" where
  "py_startswith s p = (take (length p) s = p)"

fun py_split :: "char \<Rightarrow> nat \<Rightarrow> string \<Rightarrow> string list" where
  \<comment> \<open>\<open>s.split(sep, maxsplit)\<close> for a separator of one character\<close>
  "py_split sep 0 s = [s]"
| "py_split sep (Suc n) s =
     (if sep \<in> set s
      then takeWhile (\<lambda>c. c \<noteq> sep) s # py_split sep n (tl (dropWhile (\<lambda>c. c \<noteq> sep) s))
      else [s])"

fun py_join :: "string \<Rightarrow> string list \<Rightarrow> string" where
  "py_join sep [] = []"
| "py_join sep [x] = x"
| "py_join sep (x # y # ys) = x @ sep @ py_join sep (y # ys)"

definition digit_char :: "nat \<Rightarrow> char" where
  "digit_char d = ''0123456789'' ! d"

function py_str_nat :: "nat \<Rightarrow> string" where
  \<comment> \<open>\<open>str(n)\<close> of a non-negative integer, as an f-string renders it\<close>
  "py_str_nat n = (if n < 10 then [digit_char n] else py_str_nat (n div 10) @ [digit_char (n mod 10)])"
  by pat_completeness auto
termination
  by (relation "measure id") auto

declare py_str_nat.simps [simp del]

section \<open>The server's state\<close>

type_synonym ws = nat
type_synonym byte = "8 word"

text \<open>The JSON objects the server sends, by their \<open>type\<close> field.\<close>

datatype event =
    CommandResponse string
  | Notification string string
  | Chat string string nat
  | Whisper string string nat
  | FileEvent string string nat string string nat

text \<open>Rows of the \<open>messages\<close> and \<open>file_transfers\<close> tables (the columns the server sets).\<close>

record message =
  user_id :: nat
  content :: string
  timestamp :: nat
  msg_type :: string

record file_transfer =
  filename :: string
  size_bytes :: nat
  sender_id :: nat
  receiver_id :: nat
  status :: string
  file_hash :: string

datatype exn = ConnectionClosed ws | AttributeError

datatype log_line =
    ErrorSendingMessage exn
  | ErrorSendingTo string exn
  | ErrorFileTransfer exn

text \<open>
  \<open>clients\<close>, \<open>online_users\<close>, \<open>user_websockets\<close> and \<open>moderator_ws\<close> are the fields of
  \<open>ChatServer\<close>. \<open>clients\<close> is a Python set, kept as a list without repetition;
  \<open>online_users\<close> is a dict whose order \<open>/users\<close> prints, kept as an association list.
  \<open>users\<close>, \<open>messages\<close> and \<open>file_transfers\<close> are the database tables. \<open>sent\<close> records
  every frame a connection accepted, in order; \<open>send_fails\<close> lists the connections whose
  \<open>send\<close> raises; \<open>closed\<close> the connections the server closed.
\<close>

record server =
  moderator_username :: string
  clients :: "ws list"
  online_users :: "(ws \<times> string) list"
  user_websockets :: "string \<rightharpoonup> ws"
  moderator_ws :: "ws option"
  moderator_disconnect_event :: bool
  users :: "string \<rightharpoonup> nat"
  messages :: "message list"
  file_transfers :: "file_transfer list"
  sent :: "(ws \<times> event) list"
  send_fails :: "ws list"
  closed :: "ws list"
  log :: "log_line list"

text \<open>Library functions the handlers call: \<open>base64.b64decode\<close> (\<open>None\<close> when it raises)
  and \<open>hashlib.sha256(...).hexdigest()\<close>.\<close>

record prims =
  b64decode :: "string \<Rightarrow> byte list option"
  sha256_hexdigest :: "byte list \<Rightarrow> string"

definition init_server :: "string \<Rightarrow> server" where
  "init_server moderator =
     \<lparr>moderator_username = moderator, clients = [], online_users = [],
      user_websockets = Map.empty, moderator_ws = None, moderator_disconnect_event = False,
      users = Map.empty, messages = [], file_transfers = [], sent = [], send_fails = [],
      closed = [], log = []\<rparr>"

section \<open>Sending\<close>

definition ws_send :: "ws \<Rightarrow> event \<Rightarrow> server \<Rightarrow> exn option \<times> server" where
  "ws_send w ev s =
     (if w \<in> set (send_fails s) then (Some (ConnectionClosed w), s)
      else (None, s\<lparr>sent := sent s @ [(w, ev)]\<rparr>))"

text \<open>
  \<open>asyncio.gather\<close> over one \<open>send\<close> per client. Every send runs; with
  \<open>return_exceptions\<close> the exceptions are results, without it the first one is raised.
\<close>

fun gather_sends :: "ws list \<Rightarrow> event \<Rightarrow> server \<Rightarrow> exn option list \<times> server" where
  "gather_sends [] ev s = ([], s)"
| "gather_sends (c # cs) ev s =
     (let (r, s1) = ws_send c ev s; (rs, s2) = gather_sends cs ev s1 in (r # rs, s2))"

definition gather :: "bool \<Rightarrow> ws list \<Rightarrow> event \<Rightarrow> server \<Rightarrow> (exn + exn option list) \<times> server" where
  "gather return_exceptions cs ev s =
     (let (rs, s') = gather_sends cs ev s
      in if return_exceptions then (Inr rs, s')
         else (case List.find (\<lambda>r. r \<noteq> None) rs of
                 Some (Some e) \<Rightarrow> (Inl e, s')
               | _ \<Rightarrow> (Inr rs, s')))"

fun log_results :: "exn option list \<Rightarrow> log_line list" where
  "log_results [] = []"
| "log_results (None # rs) = log_results rs"
| "log_results (Some e # rs) = ErrorSendingMessage e # log_results rs"

definition notify_all :: "event \<Rightarrow> server \<Rightarrow> exn option \<times> server" where
  "notify_all ev s =
     (if clients s = [] then (None, s)
      else (case gather True (clients s) ev s of
              (Inl e, s') \<Rightarrow> (Some e, s')
            | (Inr results, s') \<Rightarrow> (None, s'\<lparr>log := log s' @ log_results results\<rparr>)))"

definition notify_user :: "string \<Rightarrow> event \<Rightarrow> server \<Rightarrow> bool \<times> server" where
  "notify_user username ev s =
     (case user_websockets s username of
        None \<Rightarrow> (False, s)
      | Some w \<Rightarrow>
          (case ws_send w ev s of
             (None, s') \<Rightarrow> (True, s')
           | (Some e, s') \<Rightarrow> (False, s'\<lparr>log := log s' @ [ErrorSendingTo username e]\<rparr>)))"

section \<open>The command router: \<open>ChatServer.process_message\<close> and \<open>handle_command\<close>\<close>

text \<open>
  A handler returns the exception it raises, if any, with the state it leaves behind.
  \<open>now\<close> is the reading of \<open>datetime.now\<close> in the handler, \<open>db_now\<close> the default the
  database gives the \<open>timestamp\<close> column of an inserted row.
\<close>

definition cmd_clear :: "nat \<Rightarrow> nat \<Rightarrow> ws \<Rightarrow> string \<Rightarrow> server \<Rightarrow> exn option \<times> server" where
  "cmd_clear now db_now w username s =
     (if username = moderator_username s then
        (let clear_point = now;
             kept = filter (\<lambda>m. \<not> (timestamp m < clear_point \<and>
                                     msg_type m \<in> {''chat'', ''notification''})) (messages s)
         in case users s username of
              None \<Rightarrow> (Some AttributeError, s)
            | Some uid \<Rightarrow>
                notify_all
                  (Notification (''*'' @ moderator_username s) ''cleared the chat history.'')
                  (s\<lparr>messages := kept @
                       [\<lparr>user_id = uid, content = ''cleared the chat history.'',
                         timestamp = db_now, msg_type = ''clear''\<rparr>]\<rparr>))
      else ws_send w
             (CommandResponse ''Permission denied. Only moderators can clear chat history.'') s)"

definition cmd_quit :: "ws \<Rightarrow> server \<Rightarrow> exn option \<times> server" where
  "cmd_quit w s =
     (case ws_send w (CommandResponse ''Disconnecting...'') s of
        (None, s') \<Rightarrow> (None, s'\<lparr>closed := closed s' @ [w]\<rparr>)
      | (Some e, s') \<Rightarrow> (Some e, s'))"

definition cmd_whisper :: "nat \<Rightarrow> ws \<Rightarrow> string \<Rightarrow> string \<Rightarrow> server \<Rightarrow> exn option \<times> server" where
  "cmd_whisper now w username cmd s =
     (let parts = py_split CHR '' '' 2 cmd in
      if length parts < 3 then
        ws_send w (CommandResponse
          ''Usage: /whisper <username> <message> or /w <username> <message>'') s
      else
        (let target_username = parts ! 1; private_message = parts ! 2 in
         if user_websockets s target_username = None then
           ws_send w (CommandResponse (''User '' @ target_username @ '' is not online.'')) s
         else
           (let (delivered, s1) =
                  notify_user target_username (Whisper username private_message now) s
            in ws_send w (CommandResponse (''Whisper sent to '' @ target_username)) s1)))"

text \<open>The two \<open>except\<close> clauses around the body of the \<open>/file\<close> branch.\<close>

definition except_ValueError :: "ws \<Rightarrow> string \<Rightarrow> server \<Rightarrow> exn option \<times> server" where
  "except_ValueError w msg s = ws_send w (CommandResponse (''Error: '' @ msg)) s"

definition except_Exception :: "ws \<Rightarrow> exn option \<times> server \<Rightarrow> exn option \<times> server" where
  "except_Exception w r =
     (case r of
        (None, s) \<Rightarrow> (None, s)
      | (Some e, s) \<Rightarrow>
          ws_send w (CommandResponse ''An error occurred while processing the file transfer.'')
            (s\<lparr>log := log s @ [ErrorFileTransfer e]\<rparr>))"

definition max_file_size :: nat where
  "max_file_size = 10 * 1024 * 1024"

definition file_try :: "prims \<Rightarrow> nat \<Rightarrow> ws \<Rightarrow> string \<Rightarrow> string \<Rightarrow> string \<Rightarrow> server \<Rightarrow> exn option \<times> server" where
  "file_try P now w username target_username file_data s =
     (let file_parts = py_split CHR '';'' 1 file_data in
      if length file_parts \<noteq> 2 then except_ValueError w ''Invalid file format'' s
      else
        (let filename = file_parts ! 0; base64_data = file_parts ! 1 in
         case b64decode P base64_data of
           None \<Rightarrow> except_ValueError w ''Invalid base64 data'' s
         | Some decoded_data \<Rightarrow>
             (let file_size = length decoded_data in
              if file_size > max_file_size then
                except_Exception w
                  (ws_send w (CommandResponse ''File too large. Maximum size is 10MB.'') s)
              else
                (case (users s username, users s target_username) of
                   (Some sender, Some receiver) \<Rightarrow>
                     (let file_hash = sha256_hexdigest P decoded_data;
                          s1 = s\<lparr>file_transfers := file_transfers s @
                                 [\<lparr>filename = filename, size_bytes = file_size, sender_id = sender,
                                   receiver_id = receiver, status = ''completed'',
                                   file_hash = file_hash\<rparr>]\<rparr>;
                          (delivered, s2) =
                            notify_user target_username
                              (FileEvent username filename file_size base64_data file_hash now) s1
                      in except_Exception w
                           (ws_send w (CommandResponse
                              (''File '' @ [CHR 0x27] @ filename @ [CHR 0x27] @ '' ('' @
                               py_str_nat file_size @ '' bytes) sent to '' @ target_username)) s2))
                 | _ \<Rightarrow> except_ValueError w ''User not found'' s))))"

definition cmd_file :: "prims \<Rightarrow> nat \<Rightarrow> ws \<Rightarrow> string \<Rightarrow> string \<Rightarrow> server \<Rightarrow> exn option \<times> server" where
  "cmd_file P now w username cmd s =
     (let parts = py_split CHR '' '' 2 cmd in
      if length parts < 3 then
        ws_send w (CommandResponse ''Usage: /file <username> <base64_encoded_file>'') s
      else
        (let target_username = parts ! 1; file_data = parts ! 2 in
         if user_websockets s target_username = None then
           ws_send w (CommandResponse (''User '' @ target_username @ '' is not online.'')) s
         else file_try P now w username target_username file_data s))"

definition handle_command :: "prims \<Rightarrow> nat \<Rightarrow> nat \<Rightarrow> ws \<Rightarrow> string \<Rightarrow> string \<Rightarrow> server \<Rightarrow> exn option \<times> server" where
  "handle_command P now db_now w username command s =
     (let cmd = py_lower (py_strip command) in
      if cmd = ''/users'' then
        ws_send w (CommandResponse
          (''Online users: '' @ py_join '', '' (map snd (online_users s)))) s
      else if cmd = ''/clear'' then cmd_clear now db_now w username s
      else if cmd \<in> {''/quit'', ''/exit''} then cmd_quit w s
      else if py_startswith cmd ''/whisper '' \<or> py_startswith cmd ''/w '' then
        cmd_whisper now w username cmd s
      else if py_startswith cmd ''/file '' then cmd_file P now w username cmd s
      else ws_send w (CommandResponse
             ''Unknown command. Available commands: /users, /whisper, /w, /file, /clear, /quit, /exit'') s)"

definition process_message :: "prims \<Rightarrow> nat \<Rightarrow> nat \<Rightarrow> ws \<Rightarrow> string \<Rightarrow> string \<Rightarrow> server \<Rightarrow> exn option \<times> server" where
  "process_message P now db_now w username msg s =
     (if py_startswith msg ''/'' then handle_command P now db_now w username msg s
      else
        (let display_username =
               (if username = moderator_username s then ''*'' @ username else username)
         in case users s username of
              None \<Rightarrow> (Some AttributeError, s)
            | Some uid \<Rightarrow>
                notify_all (Chat display_username msg now)
                  (s\<lparr>messages := messages s @
                       [\<lparr>user_id = uid, content = msg, timestamp = db_now,
                         msg_type = ''chat''\<rparr>]\<rparr>)))"

section \<open>The session registry: the parts of \<open>ChatServer.handle_client\<close>\<close>

text \<open>
  \<open>connect\<close> is the first statement of \<open>handle_client\<close>; \<open>register_user\<close> is what it does
  once the credentials are accepted (lines 274 to 280); \<open>cleanup\<close> is its \<open>finally\<close> block.
\<close>

definition connect :: "ws \<Rightarrow> server \<Rightarrow> server" where
  "connect w s = s\<lparr>clients := (if w \<in> set (clients s) then clients s else clients s @ [w])\<rparr>"

definition register_user :: "ws \<Rightarrow> string \<Rightarrow> server \<Rightarrow> server" where
  "register_user w username s =
     (let s1 = s\<lparr>online_users := AList.update w username (online_users s),
                 user_websockets := (user_websockets s)(username \<mapsto> w)\<rparr>
      in if username = moderator_username s1 \<and> moderator_ws s1 = None
         then s1\<lparr>moderator_ws := Some w\<rparr> else s1)"

definition cleanup :: "nat \<Rightarrow> ws \<Rightarrow> server \<Rightarrow> exn option \<times> server" where
  "cleanup db_now w s =
     (let s0 = s\<lparr>clients := removeAll w (clients s)\<rparr>;
          (r, s3) =
            (case map_of (online_users s0) w of
               None \<Rightarrow> (None, s0)
             | Some username \<Rightarrow>
                 (let s1 = s0\<lparr>online_users := AList.delete w (online_users s0),
                              user_websockets := (user_websockets s0)(username := None)\<rparr>;
                      display_username =
                        (if username = moderator_username s1 then ''*'' @ username else username);
                      s2 = (case users s1 username of
                              None \<Rightarrow> s1
                            | Some uid \<Rightarrow>
                                s1\<lparr>messages := messages s1 @
                                     [\<lparr>user_id = uid, content = ''left the chat.'',
                                       timestamp = db_now, msg_type = ''leave''\<rparr>]\<rparr>)
                  in notify_all (Notification display_username ''left the chat.'') s2))
      in case r of
           Some e \<Rightarrow> (Some e, s3)
         | None \<Rightarrow>
             (if moderator_ws s3 = Some w
              then (None, s3\<lparr>moderator_ws := None, moderator_disconnect_event := True\<rparr>)
              else (None, s3)))"

text \<open>The outcome "the caller gets one \<open>command_response\<close> and nothing else changes".\<close>

definition caller_only :: "ws \<Rightarrow> string \<Rightarrow> server \<Rightarrow> exn option \<times> server" where
  "caller_only w msg s = (None, s\<lparr>sent := sent s @ [(w, CommandResponse msg)]\<rparr>)"

section \<open>The client's handler for a \<open>file\<close> event (\<open>ChatClient.display_message\<close>)\<close>

text \<open>
  What the handler prints and asks, in order, and the files it writes. \<open>ask\<close> gives the
  user's answer to a prompt; \<open>mkdir_ok\<close> and \<open>write_ok\<close> say whether creating the
  downloads directory and writing the file succeed (a failure, like one of the decoder, is
  caught and printed: \<open>ErrorSaving\<close>).
\<close>

datatype console_line = Print string | Ask string | ErrorSaving

record client =
  console :: "console_line list"
  saved :: "(string \<times> byte list) list"

definition path_join :: "string \<Rightarrow> string \<Rightarrow> string" where
  \<comment> \<open>\<open>os.path.join\<close> of the downloads directory (which does not end in a slash) and a name\<close>
  "path_join dir name = (if py_startswith name ''/'' then name else dir @ ''/'' @ name)"

definition write_file :: "bool \<Rightarrow> string \<Rightarrow> byte list \<Rightarrow> client \<Rightarrow> client" where
  "write_file write_ok file_path decoded_data c =
     (if write_ok
      then c\<lparr>console := console c @
                [Print (''[green]File saved to '' @ file_path @ ''[/green]'')],
             saved := saved c @ [(file_path, decoded_data)]\<rparr>
      else c\<lparr>console := console c @ [ErrorSaving]\<rparr>)"

definition receive_file ::
    "prims \<Rightarrow> (string \<Rightarrow> string) \<Rightarrow> bool \<Rightarrow> bool \<Rightarrow> string \<Rightarrow> string \<Rightarrow> string \<Rightarrow> nat \<Rightarrow> string
       \<Rightarrow> string \<Rightarrow> client \<Rightarrow> client" where
  "receive_file P ask mkdir_ok write_ok downloads_dir username fname fsize fhash base64_data c =
     (let c1 = c\<lparr>console := console c @
                  [Print (''[File] '' @ username @ '' sent you a file: '' @ fname @ '' ('' @
                          py_str_nat fsize @ '' bytes)''),
                   Ask ''Save file?'']\<rparr>;
          save = ask ''Save file?''
      in if py_lower save = ''y'' then
           (let file_path = path_join downloads_dir fname in
            if \<not> mkdir_ok then c1\<lparr>console := console c1 @ [ErrorSaving]\<rparr>
            else
              (case b64decode P base64_data of
                 None \<Rightarrow> c1\<lparr>console := console c1 @ [ErrorSaving]\<rparr>
               | Some decoded_data \<Rightarrow>
                   (let computed_hash = sha256_hexdigest P decoded_data
                    in if computed_hash \<noteq> fhash then
                         (let c2 = c1\<lparr>console := console c1 @
                                     [Print ''[bold red]Warning: File integrity check failed![/bold red]'',
                                      Ask ''Save anyway?'']\<rparr>;
                              verify = ask ''Save anyway?''
                          in if py_lower verify \<noteq> ''y''
                             then c2\<lparr>console := console c2 @
                                       [Print ''[yellow]File not saved.[/yellow]'']\<rparr>
                             else write_file write_ok file_path decoded_data c2)
                       else write_file write_ok file_path decoded_data c1)))
         else c1\<lparr>console := console c1 @ [Print ''[yellow]File not saved.[/yellow]'']\<rparr>)"

text \<open>A run of the registry: connections open, authenticate and close in any order.\<close>

datatype conn_event = Connect ws | Register ws string | Close ws

fun step :: "nat \<Rightarrow> conn_event \<Rightarrow> server \<Rightarrow> server" where
  "step db_now (Connect w) s = connect w s"
| "step db_now (Register w username) s = register_user w username s"
| "step db_now (Close w) s = snd (cleanup db_now w s)"

fun run_events :: "nat \<Rightarrow> conn_event list \<Rightarrow> server \<Rightarrow> server" where
  "run_events db_now [] s = s"
| "run_events db_now (e # es) s = run_events db_now es (step db_now e s)"

definition is_moderator :: "server \<Rightarrow> ws \<Rightarrow> bool" where
  "is_moderator s w = (moderator_ws s = Some w)"

section \<open>The encryption manager (\<open>EncryptionManager\<close>)\<close>

subsection \<open>UTF-8, as \<open>bytes.decode('utf-8')\<close> reads it\<close>

text \<open>
  A decoded text is the list of its code points. \<open>utf8_head\<close> reads one code point off
  the front of the bytes, refusing what the strict decoder refuses (a stray continuation
  byte, an overlong form, a surrogate, a value above U+10FFFF, a truncated sequence).
\<close>

definition is_cont :: "byte \<Rightarrow> bool" where
  "is_cont b = (0x80 \<le> unat b \<and> unat b \<le> 0xBF)"

fun utf8_head :: "byte list \<Rightarrow> (nat \<times> byte list) option" where
  "utf8_head [] = None"
| "utf8_head (b0 # bs) =
     (let n0 = unat b0 in
      if n0 < 0x80 then Some (n0, bs)
      else if 0xC2 \<le> n0 \<and> n0 \<le> 0xDF then
        (case bs of
           b1 # r \<Rightarrow>
             if is_cont b1 then Some ((n0 - 0xC0) * 64 + (unat b1 - 0x80), r) else None
         | _ \<Rightarrow> None)
      else if 0xE0 \<le> n0 \<and> n0 \<le> 0xEF then
        (case bs of
           b1 # b2 # r \<Rightarrow>
             if (if n0 = 0xE0 then 0xA0 else 0x80) \<le> unat b1 \<and>
                unat b1 \<le> (if n0 = 0xED then 0x9F else 0xBF) \<and> is_cont b2
             then Some ((n0 - 0xE0) * 4096 + (unat b1 - 0x80) * 64 + (unat b2 - 0x80), r)
             else None
         | _ \<Rightarrow> None)
      else if 0xF0 \<le> n0 \<and> n0 \<le> 0xF4 then
        (case bs of
           b1 # b2 # b3 # r \<Rightarrow>
             if (if n0 = 0xF0 then 0x90 else 0x80) \<le> unat b1 \<and>
                unat b1 \<le> (if n0 = 0xF4 then 0x8F else 0xBF) \<and> is_cont b2 \<and> is_cont b3
             then Some ((n0 - 0xF0) * 262144 + (unat b1 - 0x80) * 4096 +
                        (unat b2 - 0x80) * 64 + (unat b3 - 0x80), r)
             else None
         | _ \<Rightarrow> None)
      else None)"

lemma utf8_head_shorter: "utf8_head bs = Some (cp, r) \<Longrightarrow> length r < length bs"
  by (cases bs) (auto simp: Let_def split: if_splits list.splits)

function utf8_decode :: "byte list \<Rightarrow> nat list option" where
  "utf8_decode bs =
     (if bs = [] then Some []
      else (case utf8_head bs of
              None \<Rightarrow> None
            | Some (cp, r) \<Rightarrow>
                (case utf8_decode r of None \<Rightarrow> None | Some cps \<Rightarrow> Some (cp # cps))))"
  by pat_completeness auto
termination
  by (relation "measure length") (auto dest: utf8_head_shorter)

declare utf8_decode.simps [simp del]

text \<open>The bytes of one code point, used to state that decoding determines the bytes.\<close>

definition utf8_enc1 :: "nat \<Rightarrow> byte list" where
  "utf8_enc1 cp =
     (if cp < 0x80 then [of_nat cp]
      else if cp < 0x800 then [of_nat (0xC0 + cp div 64), of_nat (0x80 + cp mod 64)]
      else if cp < 0x10000 then
        [of_nat (0xE0 + cp div 4096), of_nat (0x80 + cp div 64 mod 64), of_nat (0x80 + cp mod 64)]
      else
        [of_nat (0xF0 + cp div 262144), of_nat (0x80 + cp div 4096 mod 64),
         of_nat (0x80 + cp div 64 mod 64), of_nat (0x80 + cp mod 64)])"

text \<open>\<open>str.encode('utf-8')\<close>: it raises (\<open>None\<close>) on a surrogate code point.\<close>

definition valid_cp :: "nat \<Rightarrow> bool" where
  "valid_cp cp = (cp < 0xD800 \<or> (0xDFFF < cp \<and> cp \<le> 0x10FFFF))"

definition utf8_encode :: "nat list \<Rightarrow> byte list option" where
  "utf8_encode cps = (if list_all valid_cp cps then Some (concat (map utf8_enc1 cps)) else None)"

subsection \<open>AES in CFB mode (\<open>Cipher(algorithms.AES(key), modes.CFB(iv))\<close>)\<close>

text \<open>
  CFB with full-block feedback: each block of up to 16 bytes is combined by XOR with the
  encryption of the previous ciphertext block (of the IV for the first block). The block
  cipher itself is a parameter, a function on 128-bit blocks.
\<close>

definition block_of_bytes :: "byte list \<Rightarrow> 128 word" where
  "block_of_bytes bs = foldl (\<lambda>w b. push_bit 8 w OR ucast b) 0 bs"

definition block_byte :: "128 word \<Rightarrow> nat \<Rightarrow> byte" where
  "block_byte w i = ucast (drop_bit (8 * (15 - i)) w)"

definition xor_keystream :: "128 word \<Rightarrow> byte list \<Rightarrow> byte list" where
  "xor_keystream ks bs = map (\<lambda>(i, b). b XOR block_byte ks i) (zip [0..<length bs] bs)"

function cfb_decrypt :: "(128 word \<Rightarrow> 128 word) \<Rightarrow> 128 word \<Rightarrow> byte list \<Rightarrow> byte list" where
  "cfb_decrypt E feedback cs =
     (if cs = [] then []
      else xor_keystream (E feedback) (take 16 cs) @
           cfb_decrypt E (block_of_bytes (take 16 cs)) (drop 16 cs))"
  by pat_completeness auto
termination
  by (relation "measure (\<lambda>(E, f, cs). length cs)") auto

function cfb_encrypt :: "(128 word \<Rightarrow> 128 word) \<Rightarrow> 128 word \<Rightarrow> byte list \<Rightarrow> byte list" where
  "cfb_encrypt E feedback ps =
     (if ps = [] then []
      else (let c = xor_keystream (E feedback) (take 16 ps)
            in c @ cfb_encrypt E (block_of_bytes c) (drop 16 ps)))"
  by pat_completeness auto
termination
  by (relation "measure (\<lambda>(E, f, ps). length ps)") auto

declare cfb_decrypt.simps [simp del] cfb_encrypt.simps [simp del]

subsection \<open>\<open>encrypt_message\<close> and \<open>decrypt_message\<close>\<close>

text \<open>
  The envelope is a JSON object of three Base64 texts. \<open>json.dumps\<close> and \<open>json.loads\<close>,
  Base64, RSA-OAEP with a key and the AES block function are parameters; \<open>None\<close> stands
  for an exception of the library, which \<open>decrypt_message\<close> catches. A key is named by a
  number. \<open>rsa_encrypt\<close> takes the random seed of the OAEP padding as an argument.
\<close>

type_synonym rsa_key = nat

record package =
  encrypted_key :: string
  iv :: string
  ciphertext :: string

record crypto = prims +
  b64encode :: "byte list \<Rightarrow> string"
  json_dumps :: "package \<Rightarrow> string"
  json_loads :: "string \<Rightarrow> package option"
  rsa_encrypt :: "rsa_key \<Rightarrow> byte list \<Rightarrow> byte list \<Rightarrow> byte list"
  rsa_decrypt :: "rsa_key \<Rightarrow> byte list \<Rightarrow> byte list option"
  aes_encrypt_block :: "byte list \<Rightarrow> 128 word \<Rightarrow> 128 word"

text \<open>\<open>peer_key_files\<close> are the \<open>_peer.pem\<close> files of the keys directory.\<close>

record manager =
  private_key :: "rsa_key option"
  public_key :: "rsa_key option"
  peer_keys :: "string \<rightharpoonup> rsa_key"
  peer_key_files :: "string \<rightharpoonup> rsa_key"

datatype encrypt_error = ValueError | UnicodeEncodeError

definition load_peer_key :: "manager \<Rightarrow> string \<Rightarrow> rsa_key option \<times> manager" where
  "load_peer_key m username =
     (case peer_keys m username of
        Some k \<Rightarrow> (Some k, m)
      | None \<Rightarrow>
          (case peer_key_files m username of
             Some k \<Rightarrow> (Some k, m\<lparr>peer_keys := (peer_keys m)(username \<mapsto> k)\<rparr>)
           | None \<Rightarrow> (None, m)))"

text \<open>
  \<open>aes_key\<close> and \<open>ivb\<close> are what \<open>os.urandom(32)\<close> and \<open>os.urandom(16)\<close> return in this
  call, \<open>seed\<close> the randomness of the padding. The cipher object refuses a key or an IV of
  another length, here as in \<open>decrypt_message\<close>.
\<close>

definition encrypt_message ::
    "crypto \<Rightarrow> manager \<Rightarrow> byte list \<Rightarrow> byte list \<Rightarrow> byte list \<Rightarrow> nat list \<Rightarrow> string
       \<Rightarrow> (encrypt_error + string option) \<times> manager" where
  "encrypt_message C m aes_key ivb seed message recipient_username =
     (case load_peer_key m recipient_username of
        (None, m') \<Rightarrow> (Inr None, m')
      | (Some recipient_key, m') \<Rightarrow>
          (let ek = rsa_encrypt C recipient_key seed aes_key in
           if length aes_key \<notin> {16, 24, 32} \<or> length ivb \<noteq> 16
           then (Inl ValueError, m')
           else
             (case utf8_encode message of
                None \<Rightarrow> (Inl UnicodeEncodeError, m')
              | Some message_bytes \<Rightarrow>
                  (let ct = cfb_encrypt (aes_encrypt_block C aes_key) (block_of_bytes ivb)
                              message_bytes
                   in (Inr (Some (json_dumps C
                             \<lparr>encrypted_key = b64encode C ek, iv = b64encode C ivb,
                               ciphertext = b64encode C ct\<rparr>)), m')))))"

definition decrypt_message :: "crypto \<Rightarrow> manager \<Rightarrow> string \<Rightarrow> nat list option" where
  "decrypt_message C m encrypted_message =
     (case private_key m of
        None \<Rightarrow> None
      | Some sk \<Rightarrow>
          (case json_loads C encrypted_message of
             None \<Rightarrow> None
           | Some encrypted_package \<Rightarrow>
               (case b64decode C (encrypted_key encrypted_package) of
                  None \<Rightarrow> None
                | Some ek \<Rightarrow>
                    (case b64decode C (iv encrypted_package) of
                       None \<Rightarrow> None
                     | Some ivb \<Rightarrow>
                         (case b64decode C (ciphertext encrypted_package) of
                            None \<Rightarrow> None
                          | Some ct \<Rightarrow>
                              (case rsa_decrypt C sk ek of
                                 None \<Rightarrow> None
                               | Some aes_key \<Rightarrow>
                                   if length aes_key \<notin> {16, 24, 32} \<or> length ivb \<noteq> 16
                                   then None
                                   else utf8_decode
                                          (cfb_decrypt (aes_encrypt_block C aes_key)
                                             (block_of_bytes ivb) ct)))))))"

definition example_iv :: "byte list" where
  "example_iv = [0, 1, 2, 3, 4, 5, 6, 7, 8, 9, 10, 11, 12, 13, 14, 15]"

definition example_crypto :: "(byte list \<Rightarrow> 128 word \<Rightarrow> 128 word) \<Rightarrow> crypto" where
  \<comment> \<open>stand-ins for the JSON, Base64 and RSA functions in the examples, around any block
      function \<open>E\<close>: \<open>envelope\<close> holds the one-byte ciphertext of the text \<open>A\<close>, and
      \<open>tampered\<close> is \<open>envelope\<close> with that byte changed (two bits flipped)\<close>
  "example_crypto E =
     \<lparr>b64decode =
        (\<lambda>d. if d = ''KEY'' then Some (replicate 256 0)
             else if d = ''IV'' then Some example_iv
             else if d = ''CT'' then
               Some [0x41 XOR block_byte (E (replicate 32 1) (block_of_bytes example_iv)) 0]
             else if d = ''CT2'' then
               Some [0x42 XOR block_byte (E (replicate 32 1) (block_of_bytes example_iv)) 0]
             else None),
      sha256_hexdigest = (\<lambda>b. ''digest''),
      b64encode =
        (\<lambda>x. if x = replicate 256 0 then ''KEY''
             else if x = example_iv then ''IV''
             else if x = [0x41 XOR block_byte (E (replicate 32 1) (block_of_bytes example_iv)) 0]
             then ''CT'' else ''CT2''),
      json_dumps = (\<lambda>p. if ciphertext p = ''CT'' then ''envelope'' else ''tampered''),
      json_loads =
        (\<lambda>t. if t = ''envelope''
             then Some \<lparr>encrypted_key = ''KEY'', iv = ''IV'', ciphertext = ''CT''\<rparr>
             else if t = ''tampered''
             then Some \<lparr>encrypted_key = ''KEY'', iv = ''IV'', ciphertext = ''CT2''\<rparr>
             else None),
      rsa_encrypt = (\<lambda>pk seed k. replicate 256 0),
      rsa_decrypt = (\<lambda>sk ek. Some (replicate 32 1)),
      aes_encrypt_block = E\<rparr>"

section \<open>A small server used in the examples\<close>

definition two_users :: server where
  \<comment> \<open>moderator \<open>admin\<close>; \<open>alice\<close> on connection 1 and \<open>bob\<close> on connection 2, both in the
      \<open>users\<close> table\<close>
  "two_users =
     (init_server ''admin'')
       \<lparr>clients := [1, 2],
        online_users := [(1, ''alice''), (2, ''bob'')],
        user_websockets := [''alice'' \<mapsto> 1, ''bob'' \<mapsto> 2],
        users := [''alice'' \<mapsto> 10, ''bob'' \<mapsto> 20]\<rparr>"

definition example_prims :: "byte list \<Rightarrow> prims" where
  \<comment> \<open>stand-ins for the library functions in the examples: the text \<open>payload\<close> decodes to
      the given bytes, any other text is refused\<close>
  "example_prims bytes =
     \<lparr>b64decode = (\<lambda>d. if d = ''payload'' then Some bytes else None),
      sha256_hexdigest = (\<lambda>b. ''digest'')\<rparr>"

lemmas string_defs =
  py_lower_def py_strip_def py_startswith_def is_space_def is_upper_def lower_char_def

lemmas router_defs =
  handle_command_def cmd_clear_def cmd_quit_def cmd_whisper_def cmd_file_def file_try_def
  except_ValueError_def except_Exception_def notify_user_def ws_send_def

section \<open>Facts about the string operations\<close>

lemma lower_char_facts:
  "is_space (lower_char c) = is_space c"
  "\<not> is_upper (lower_char c)"
  "(lower_char c = CHR '' '') = (c = CHR '' '')"
  apply (cases c; rename_tac b0 b1 b2 b3 b4 b5 b6 b7;
         case_tac b0; case_tac b1; case_tac b2; case_tac b3;
         case_tac b4; case_tac b5; case_tac b6; case_tac b7;
         simp add: lower_char_def is_upper_def is_space_def)+
  done


lemma lower_char_idem: "lower_char (lower_char c) = lower_char c"
  by (subst lower_char_def) (simp add: lower_char_facts(2))

lemma py_lower_idem: "py_lower (py_lower s) = py_lower s"
  by (simp add: py_lower_def lower_char_idem)

lemma dropWhile_space_lower:
  "dropWhile is_space (py_lower s) = py_lower (dropWhile is_space s)"
  by (simp add: py_lower_def dropWhile_map comp_def lower_char_facts(1))

lemma py_strip_lower: "py_strip (py_lower s) = py_lower (py_strip s)"
proof -
  have "rev (py_lower s) = py_lower (rev s)" for s
    by (simp add: py_lower_def rev_map)
  then show ?thesis
    by (simp add: py_strip_def dropWhile_space_lower)
qed

lemma strip_keeps_head:
  assumes "ys = [] \<or> \<not> P (hd ys)"
  shows "dropWhile P (rev (dropWhile P (rev ys))) = rev (dropWhile P (rev ys))"
proof (cases ys)
  case Nil
  then show ?thesis by simp
next
  case (Cons y ys')
  with assms have ny: "\<not> P y" by simp
  have "dropWhile P (rev ys' @ [y]) = dropWhile P (rev ys') @ [y]"
    using ny by (simp add: dropWhile_append3 dropWhile_append) 
  then have "rev (dropWhile P (rev ys)) = y # rev (dropWhile P (rev ys'))"
    using Cons by simp
  with ny show ?thesis by simp
qed

lemma dropWhile_head: "dropWhile P xs = [] \<or> \<not> P (hd (dropWhile P xs))"
  by (metis hd_dropWhile)

lemma py_strip_idem: "py_strip (py_strip s) = py_strip s"
  by (simp add: py_strip_def strip_keeps_head [OF dropWhile_head] dropWhile_idem)

lemma lower_strip_idem:
  "py_lower (py_strip (py_lower (py_strip s))) = py_lower (py_strip s)"
  by (simp add: py_strip_lower py_strip_idem py_lower_idem)

lemma py_strip_id:
  assumes "s \<noteq> []" "\<not> is_space (hd s)" "\<not> is_space (last s)"
  shows "py_strip s = s"
proof -
  have a: "dropWhile is_space s = s"
    using assms(1,2) by (cases s) simp_all
  obtain ys l where s: "s = ys @ [l]"
    using assms(1) by (cases s rule: rev_cases) simp_all
  have "dropWhile is_space (rev s) = rev s"
    using assms(3) by (simp add: s)
  with a show ?thesis by (simp add: py_strip_def)
qed

lemma py_split_two:
  assumes "sep \<notin> set a" "sep \<notin> set b"
  shows "py_split sep 2 (a @ sep # b @ sep # c) = [a, b, c]"
proof -
  have 1: "takeWhile (\<lambda>x. x \<noteq> sep) (a @ sep # r) = a" for r
    using assms(1) by (induction a) auto
  have 2: "dropWhile (\<lambda>x. x \<noteq> sep) (a @ sep # r) = sep # r" for r
    using assms(1) by (induction a) auto
  have 3: "takeWhile (\<lambda>x. x \<noteq> sep) (b @ sep # r) = b" for r
    using assms(2) by (induction b) auto
  have 4: "dropWhile (\<lambda>x. x \<noteq> sep) (b @ sep # r) = sep # r" for r
    using assms(2) by (induction b) auto
  show ?thesis
    by (simp add: numeral_2_eq_2 1 2 3 4)
qed

lemma no_space_lower: "CHR '' '' \<notin> set s \<Longrightarrow> CHR '' '' \<notin> set (py_lower s)"
  by (auto simp: py_lower_def) (metis lower_char_facts(3))

section \<open>Broadcast\<close>

lemma gather_sends_eq:
  "gather_sends cs ev s =
     (map (\<lambda>c. if c \<in> set (send_fails s) then Some (ConnectionClosed c) else None) cs,
      s\<lparr>sent := sent s @ map (\<lambda>c. (c, ev)) (filter (\<lambda>c. c \<notin> set (send_fails s)) cs)\<rparr>)"
proof (induction cs arbitrary: s)
  case Nil
  show ?case by simp
next
  case (Cons c cs)
  show ?case
    by (cases "c \<in> set (send_fails s)") (simp_all add: Cons.IH ws_send_def)
qed

lemma log_results_eq:
  "log_results (map (\<lambda>c. if c \<in> F then Some (ConnectionClosed c) else None) cs) =
     map (\<lambda>c. ErrorSendingMessage (ConnectionClosed c)) (filter (\<lambda>c. c \<in> F) cs)"
  by (induction cs) simp_all

lemma notify_all_eq:
  "notify_all ev s =
     (None,
      s\<lparr>sent := sent s @ map (\<lambda>c. (c, ev)) (filter (\<lambda>c. c \<notin> set (send_fails s)) (clients s)),
        log := log s @ map (\<lambda>c. ErrorSendingMessage (ConnectionClosed c))
                         (filter (\<lambda>c. c \<in> set (send_fails s)) (clients s))\<rparr>)"
  by (simp add: notify_all_def gather_def gather_sends_eq log_results_eq)

lemma filter_only_one:
  "distinct cs \<Longrightarrow> bad \<in> set cs \<Longrightarrow> set F \<inter> set cs = {bad} \<Longrightarrow>
     filter (\<lambda>c. c \<in> set F) cs = [bad] \<and> filter (\<lambda>c. c \<notin> set F) cs = removeAll bad cs"
proof (induction cs)
  case Nil
  then show ?case by simp
next
  case (Cons c cs)
  show ?case
  proof (cases "c = bad")
    case True
    with Cons.prems have "bad \<notin> set cs" and "\<forall>x \<in> set cs. x \<notin> set F"
      by auto
    then have "filter (\<lambda>c. c \<in> set F) cs = []" and "filter (\<lambda>c. c \<notin> set F) cs = cs"
      and "removeAll bad cs = cs"
      by (simp_all add: filter_empty_conv)
    moreover from Cons.prems True have "bad \<in> set F" by auto
    ultimately show ?thesis using True by simp
  next
    case False
    with Cons.prems have "distinct cs" "bad \<in> set cs" "set F \<inter> set cs = {bad}" "c \<notin> set F"
      by auto
    with Cons.IH False show ?thesis by simp
  qed
qed

text \<open>
  C8: \<open>notify_all\<close> never raises; every client whose send works is sent the event; and when
  exactly one of N clients fails, the other N - 1 receive it and the failure is one log line.
\<close>

theorem notify_all_tolerates_failed_send:
  "fst (notify_all ev s) = None \<and>
   (\<forall>c \<in> set (clients s). c \<notin> set (send_fails s) \<longrightarrow>
        (c, ev) \<in> set (sent (snd (notify_all ev s)))) \<and>
   (distinct (clients s) \<and> bad \<in> set (clients s) \<and>
    set (send_fails s) \<inter> set (clients s) = {bad} \<longrightarrow>
      sent (snd (notify_all ev s)) = sent s @ map (\<lambda>c. (c, ev)) (removeAll bad (clients s)) \<and>
      length (removeAll bad (clients s)) = length (clients s) - 1 \<and>
      log (snd (notify_all ev s)) = log s @ [ErrorSendingMessage (ConnectionClosed bad)])"
proof (intro conjI ballI impI)
  show "fst (notify_all ev s) = None"
    by (simp add: notify_all_eq)
next
  fix c assume "c \<in> set (clients s)" "c \<notin> set (send_fails s)"
  then show "(c, ev) \<in> set (sent (snd (notify_all ev s)))"
    by (simp add: notify_all_eq)
next
  assume h: "distinct (clients s) \<and> bad \<in> set (clients s) \<and>
             set (send_fails s) \<inter> set (clients s) = {bad}"
  then have f: "filter (\<lambda>c. c \<in> set (send_fails s)) (clients s) = [bad]"
               "filter (\<lambda>c. c \<notin> set (send_fails s)) (clients s) = removeAll bad (clients s)"
    using filter_only_one [of "clients s" bad "send_fails s"] by simp_all
  show "sent (snd (notify_all ev s)) = sent s @ map (\<lambda>c. (c, ev)) (removeAll bad (clients s))"
    by (simp add: notify_all_eq f)
  show "log (snd (notify_all ev s)) = log s @ [ErrorSendingMessage (ConnectionClosed bad)]"
    by (simp add: notify_all_eq f)
  from h show "length (removeAll bad (clients s)) = length (clients s) - 1"
    by (simp add: distinct_remove1_removeAll [symmetric] length_remove1)
qed

theorem notify_all_tolerates_failed_send_witness:
  "sent (snd (notify_all (Notification ''*admin'' ''hi'')
                (two_users\<lparr>clients := [1, 2, 3], send_fails := [2]\<rparr>))) =
     [(1, Notification ''*admin'' ''hi''), (3, Notification ''*admin'' ''hi'')] \<and>
   fst (notify_all (Notification ''*admin'' ''hi'')
          (two_users\<lparr>clients := [1, 2, 3], send_fails := [2]\<rparr>)) = None \<and>
   log (snd (notify_all (Notification ''*admin'' ''hi'')
                (two_users\<lparr>clients := [1, 2, 3], send_fails := [2]\<rparr>))) =
     [ErrorSendingMessage (ConnectionClosed 2)]"
proof -
  let ?s = "two_users\<lparr>clients := [1, 2, 3], send_fails := [2]\<rparr>"
  have h: "distinct (clients ?s) \<and> 2 \<in> set (clients ?s) \<and>
           set (send_fails ?s) \<inter> set (clients ?s) = {2}"
    by (simp add: two_users_def init_server_def)
  have s0: "sent two_users = []" "log two_users = []"
    by (simp_all add: two_users_def init_server_def)
  from notify_all_tolerates_failed_send [of "Notification ''*admin'' ''hi''" ?s 2] h
  show ?thesis by (simp add: s0)
qed

section \<open>Whispers are relayed in lower case\<close>

text \<open>
  C1: the router lower-cases and strips the whole line before it takes the payload out
  of it, so the payload that reaches the target is not the one the sender submitted:
  here the marker \<open>[ENCRYPTED]\<close> and the Base64 text arrive in lower case.
\<close>

theorem whisper_payload_is_lowercased:
  "sent (snd (handle_command P 5 6 1 ''alice''
                ''/whisper bob [ENCRYPTED]{iv:QUJD}'' two_users)) =
     [(2, Whisper ''alice'' ''[encrypted]{iv:qujd}'' 5),
      (1, CommandResponse ''Whisper sent to bob'')]"
  by (simp add: router_defs string_defs two_users_def init_server_def Let_def numeral_2_eq_2)

section \<open>The moderator role\<close>

lemma register_user_fields:
  "moderator_username (register_user w u s) = moderator_username s"
  "online_users (register_user w u s) = AList.update w u (online_users s)"
  "moderator_ws (register_user w u s) =
     (if u = moderator_username s \<and> moderator_ws s = None then Some w else moderator_ws s)"
  by (simp_all add: register_user_def Let_def)

lemma cleanup_fields:
  "moderator_username (snd (cleanup db_now w s)) = moderator_username s"
  "online_users (snd (cleanup db_now w s)) = AList.delete w (online_users s)"
  "moderator_ws (snd (cleanup db_now w s)) =
     (if moderator_ws s = Some w then None else moderator_ws s)"
proof -
  have d: "map_of (online_users s) w = None \<Longrightarrow> AList.delete w (online_users s) = online_users s"
    by (simp add: delete_id map_of_eq_None_iff)
  show "moderator_username (snd (cleanup db_now w s)) = moderator_username s"
    by (simp add: cleanup_def notify_all_eq Let_def split: option.splits)
  show "online_users (snd (cleanup db_now w s)) = AList.delete w (online_users s)"
    using d by (simp add: cleanup_def notify_all_eq Let_def split: option.splits)
  show "moderator_ws (snd (cleanup db_now w s)) =
          (if moderator_ws s = Some w then None else moderator_ws s)"
    by (simp add: cleanup_def notify_all_eq Let_def split: option.splits)
qed

lemma step_invariant:
  "moderator_username (step db_now e s) = moderator_username s \<and>
   (distinct (map fst (online_users s)) \<longrightarrow> distinct (map fst (online_users (step db_now e s))))"
  by (cases e)
     (simp_all add: connect_def register_user_fields cleanup_fields distinct_update distinct_delete)

lemma run_events_invariant:
  "distinct (map fst (online_users s)) \<Longrightarrow>
     moderator_username (run_events db_now es s) = moderator_username s \<and>
     distinct (map fst (online_users (run_events db_now es s)))"
proof (induction es arbitrary: s)
  case Nil
  then show ?case by simp
next
  case (Cons e es)
  from Cons.prems step_invariant [of db_now e s]
  have "distinct (map fst (online_users (step db_now e s)))"
    and "moderator_username (step db_now e s) = moderator_username s"
    by simp_all
  with Cons.IH [of "step db_now e s"] show ?case by simp
qed

lemma one_key_at_most:
  "distinct (map fst xs) \<Longrightarrow> length (filter (\<lambda>(w, u). w = h) xs) \<le> 1"
proof (induction xs)
  case Nil
  then show ?case by simp
next
  case (Cons x xs)
  obtain w u where x: "x = (w, u)" by (cases x)
  show ?case
  proof (cases "w = h")
    case True
    with Cons.prems x have "h \<notin> fst ` set xs" by simp
    then have "filter (\<lambda>(w, u). w = h) xs = []"
      by (force simp: filter_empty_conv)
    with x True show ?thesis by simp
  next
    case False
    with Cons x show ?thesis by simp
  qed
qed

text \<open>
  C9: after any run of connections, registrations and disconnections from a fresh server,
  at most one session holds the moderator role. A session that registers under the
  moderator's name takes the role when nobody holds it, and no registration takes it from
  its holder; closing the holder's connection sets the role to none, closing any other
  connection leaves it alone.
\<close>

theorem at_most_one_moderator:
  assumes "s = run_events db_now evs (init_server m)"
  shows "(\<forall>a b. is_moderator s a \<and> is_moderator s b \<longrightarrow> a = b) \<and>
         length (filter (\<lambda>(w, u). is_moderator s w) (online_users s)) \<le> 1 \<and>
         (moderator_ws s = None \<longrightarrow> is_moderator (register_user w m s) w) \<and>
         (\<forall>h. is_moderator s h \<longrightarrow> moderator_ws (register_user w u s) = Some h) \<and>
         (u \<noteq> m \<longrightarrow> moderator_ws (register_user w u s) = moderator_ws s) \<and>
         (is_moderator s w \<longrightarrow> moderator_ws (snd (cleanup db_now w s)) = None) \<and>
         (\<not> is_moderator s w \<longrightarrow> moderator_ws (snd (cleanup db_now w s)) = moderator_ws s)"
proof -
  have inv: "moderator_username s = m" "distinct (map fst (online_users s))"
    using run_events_invariant [of "init_server m" db_now evs] assms
    by (simp_all add: init_server_def)
  have count: "length (filter (\<lambda>(w, u). is_moderator s w) (online_users s)) \<le> 1"
  proof (cases "moderator_ws s")
    case None
    then show ?thesis by (simp add: is_moderator_def)
  next
    case (Some h)
    have "(\<lambda>(w, u). is_moderator s w) = (\<lambda>(w, u :: string). w = h)"
      by (auto simp: is_moderator_def Some fun_eq_iff)
    with one_key_at_most [OF inv(2), of h] show ?thesis by simp
  qed
  have one: "\<forall>a b. is_moderator s a \<and> is_moderator s b \<longrightarrow> a = b"
    by (auto simp: is_moderator_def)
  have steps:
    "(moderator_ws s = None \<longrightarrow> is_moderator (register_user w m s) w) \<and>
     (\<forall>h. is_moderator s h \<longrightarrow> moderator_ws (register_user w u s) = Some h) \<and>
     (u \<noteq> m \<longrightarrow> moderator_ws (register_user w u s) = moderator_ws s) \<and>
     (is_moderator s w \<longrightarrow> moderator_ws (snd (cleanup db_now w s)) = None) \<and>
     (\<not> is_moderator s w \<longrightarrow> moderator_ws (snd (cleanup db_now w s)) = moderator_ws s)"
    using inv(1) by (simp add: is_moderator_def register_user_fields cleanup_fields)
  from one count steps show ?thesis by blast
qed

theorem at_most_one_moderator_witness:
  "moderator_ws (run_events 0 [Connect 1, Register 1 ''admin'', Connect 2, Register 2 ''admin'']
                   (init_server ''admin'')) = Some 1 \<and>
   moderator_ws (register_user 3 ''admin''
     (run_events 0 [Connect 1, Register 1 ''admin'', Connect 2, Register 2 ''admin'']
        (init_server ''admin''))) = Some 1 \<and>
   moderator_ws (snd (cleanup 0 1
     (run_events 0 [Connect 1, Register 1 ''admin'', Connect 2, Register 2 ''admin'']
        (init_server ''admin'')))) = None"
proof -
  let ?s = "run_events 0 [Connect 1, Register 1 ''admin'', Connect 2, Register 2 ''admin'']
              (init_server ''admin'')"
  have m: "moderator_ws ?s = Some 1"
    by (simp add: connect_def register_user_def init_server_def Let_def)
  from at_most_one_moderator [of ?s 0 _ "''admin''" 1 "''admin''", OF refl] m
  have "moderator_ws (snd (cleanup 0 1 ?s)) = None"
    by (simp add: is_moderator_def)
  moreover
  from at_most_one_moderator [of ?s 0 _ "''admin''" 3 "''admin''", OF refl] m
  have "moderator_ws (register_user 3 ''admin'' ?s) = Some 1"
    by (simp add: is_moderator_def)
  ultimately show ?thesis using m by simp
qed

section \<open>Clearing the history\<close>

lemma handle_command_clear:
  "py_lower (py_strip command) = ''/clear'' \<Longrightarrow>
     handle_command P now db_now w username command s = cmd_clear now db_now w username s"
  by (simp add: handle_command_def)

text \<open>
  C2 (as the code has it): the gate of \<open>/clear\<close> is the sender's name, not the role of
  its session. From a sender whose name is the moderator's (and who has a row in the
  \<open>users\<close> table, as every authenticated sender has), whether or not that session holds
  the moderator role, \<open>/clear\<close> deletes exactly the rows of type \<open>chat\<close> or
  \<open>notification\<close> with a timestamp before the clear point; it keeps every row at or after
  it and every row of another type (the \<open>join\<close>, \<open>leave\<close> and \<open>clear\<close> rows the server
  stores for its notifications), appends the row "cleared the chat history." with type
  \<open>clear\<close> and sends the notification to every client whose send works. From any other
  sender nothing is deleted and nothing is broadcast: the only frame sent is "Permission
  denied" to the sender.
\<close>

theorem clear_is_moderator_gated:
  assumes "py_lower (py_strip command) = ''/clear''"
    and "r = handle_command P now db_now w username command s"
  shows "(username = moderator_username s \<and> users s username = Some uid \<longrightarrow>
            fst r = None \<and>
            messages (snd r) =
              filter (\<lambda>m. \<not> (timestamp m < now \<and> msg_type m \<in> {''chat'', ''notification''}))
                (messages s) @
              [\<lparr>user_id = uid, content = ''cleared the chat history.'',
                timestamp = db_now, msg_type = ''clear''\<rparr>] \<and>
            (\<forall>m \<in> set (messages s).
                timestamp m < now \<and> msg_type m \<in> {''chat'', ''notification''} \<longrightarrow>
                  m \<notin> set (messages (snd r))) \<and>
            (\<forall>m \<in> set (messages s). now \<le> timestamp m \<longrightarrow> m \<in> set (messages (snd r))) \<and>
            (\<forall>m \<in> set (messages s).
                msg_type m \<notin> {''chat'', ''notification''} \<longrightarrow> m \<in> set (messages (snd r))) \<and>
            sent (snd r) =
              sent s @
              map (\<lambda>c. (c, Notification (''*'' @ moderator_username s) ''cleared the chat history.''))
                (filter (\<lambda>c. c \<notin> set (send_fails s)) (clients s))) \<and>
         (username \<noteq> moderator_username s \<longrightarrow>
            messages (snd r) = messages s \<and>
            (if w \<in> set (send_fails s) then r = (Some (ConnectionClosed w), s)
             else r = (None, s\<lparr>sent := sent s @
                    [(w, CommandResponse
                           ''Permission denied. Only moderators can clear chat history.'')]\<rparr>)))"
proof -
  have r: "r = cmd_clear now db_now w username s"
    using assms by (simp add: handle_command_clear)
  show ?thesis
    unfolding r
    by (auto simp: cmd_clear_def notify_all_eq ws_send_def Let_def)
qed

theorem clear_is_moderator_gated_witness:
  "messages (snd (handle_command (example_prims []) 5 6 1 ''admin'' '' /Clear ''
      (two_users\<lparr>users := [''admin'' \<mapsto> 1],
                 messages := [\<lparr>user_id = 10, content = ''old'', timestamp = 4, msg_type = ''chat''\<rparr>,
                              \<lparr>user_id = 10, content = ''new'', timestamp = 5, msg_type = ''chat''\<rparr>]\<rparr>))) =
     [\<lparr>user_id = 10, content = ''new'', timestamp = 5, msg_type = ''chat''\<rparr>,
      \<lparr>user_id = 1, content = ''cleared the chat history.'', timestamp = 6, msg_type = ''clear''\<rparr>] \<and>
   sent (snd (handle_command (example_prims []) 5 6 1 ''admin'' '' /Clear ''
      (two_users\<lparr>users := [''admin'' \<mapsto> 1],
                 messages := [\<lparr>user_id = 10, content = ''old'', timestamp = 4, msg_type = ''chat''\<rparr>,
                              \<lparr>user_id = 10, content = ''new'', timestamp = 5, msg_type = ''chat''\<rparr>]\<rparr>))) =
     [(1, Notification ''*admin'' ''cleared the chat history.''),
      (2, Notification ''*admin'' ''cleared the chat history.'')] \<and>
   handle_command (example_prims []) 5 6 2 ''bob'' ''/clear'' two_users =
     (None, two_users\<lparr>sent :=
        [(2, CommandResponse ''Permission denied. Only moderators can clear chat history.'')]\<rparr>)"
proof -
  let ?s = "two_users\<lparr>users := [''admin'' \<mapsto> 1],
                 messages := [\<lparr>user_id = 10, content = ''old'', timestamp = 4, msg_type = ''chat''\<rparr>,
                              \<lparr>user_id = 10, content = ''new'', timestamp = 5, msg_type = ''chat''\<rparr>]\<rparr>"
  have c1: "py_lower (py_strip '' /Clear '') = ''/clear''"
    and c2: "py_lower (py_strip ''/clear'') = ''/clear''"
    by (simp_all add: string_defs)
  have f: "moderator_username two_users = ''admin''" "sent two_users = []"
    "send_fails two_users = []" "clients two_users = [1, 2]"
    by (simp_all add: two_users_def init_server_def)
  from clear_is_moderator_gated [OF c1 refl, of "''admin''" ?s 1 "example_prims []" 5 6 1]
  have "messages (snd (handle_command (example_prims []) 5 6 1 ''admin'' '' /Clear '' ?s)) =
          [\<lparr>user_id = 10, content = ''new'', timestamp = 5, msg_type = ''chat''\<rparr>,
           \<lparr>user_id = 1, content = ''cleared the chat history.'', timestamp = 6, msg_type = ''clear''\<rparr>]"
    and "sent (snd (handle_command (example_prims []) 5 6 1 ''admin'' '' /Clear '' ?s)) =
          [(1, Notification ''*admin'' ''cleared the chat history.''),
           (2, Notification ''*admin'' ''cleared the chat history.'')]"
    by (simp_all add: f)
  moreover
  from clear_is_moderator_gated [OF c2 refl, of "''bob''" two_users uid "example_prims []" 5 6 2]
  have "handle_command (example_prims []) 5 6 2 ''bob'' ''/clear'' two_users =
     (None, two_users\<lparr>sent :=
        [(2, CommandResponse ''Permission denied. Only moderators can clear chat history.'')]\<rparr>)"
    by (simp add: f)
  ultimately show ?thesis by simp
qed

text \<open>
  C2, counterexample. The moderator's name is connected twice; connection 1 holds the
  role, connection 3 does not. \<open>/clear\<close> from connection 3 is obeyed, and of the three
  rows older than the clear point only the chat row is deleted: the stored join
  notification and the "cleared the chat history." row of an earlier clear are kept.
\<close>

theorem clear_keeps_stored_notifications_and_ignores_role:
  "moderator_ws
     (run_events 0 [Connect 1, Register 1 ''admin'', Connect 3, Register 3 ''admin'']
        (init_server ''admin'')) = Some 1 \<and>
   \<not> is_moderator
     (run_events 0 [Connect 1, Register 1 ''admin'', Connect 3, Register 3 ''admin'']
        (init_server ''admin'')) 3 \<and>
   messages (snd (handle_command (example_prims []) 5 6 3 ''admin'' ''/clear''
     ((run_events 0 [Connect 1, Register 1 ''admin'', Connect 3, Register 3 ''admin'']
         (init_server ''admin''))
        \<lparr>users := [''admin'' \<mapsto> 1],
         messages :=
           [\<lparr>user_id = 1, content = ''joined the chat.'', timestamp = 1, msg_type = ''join''\<rparr>,
            \<lparr>user_id = 1, content = ''cleared the chat history.'', timestamp = 2,
              msg_type = ''clear''\<rparr>,
            \<lparr>user_id = 1, content = ''hello'', timestamp = 3, msg_type = ''chat''\<rparr>]\<rparr>))) =
     [\<lparr>user_id = 1, content = ''joined the chat.'', timestamp = 1, msg_type = ''join''\<rparr>,
      \<lparr>user_id = 1, content = ''cleared the chat history.'', timestamp = 2, msg_type = ''clear''\<rparr>,
      \<lparr>user_id = 1, content = ''cleared the chat history.'', timestamp = 6, msg_type = ''clear''\<rparr>]"
  by (simp add: handle_command_def cmd_clear_def notify_all_eq string_defs is_moderator_def
        connect_def register_user_def init_server_def Let_def)

section \<open>File transfer\<close>

lemma handle_command_file:
  assumes "py_startswith (py_lower (py_strip command)) ''/file ''"
  shows "handle_command P now db_now w username command s =
           cmd_file P now w username (py_lower (py_strip command)) s"
proof -
  from assms have "take (length ''/file '') (py_lower (py_strip command)) = ''/file ''"
    unfolding py_startswith_def .
  then obtain rest where c: "py_lower (py_strip command) = ''/file '' @ rest"
    by (metis append_take_drop_id)
  show ?thesis
    by (simp add: handle_command_def c py_startswith_def)
qed

lemma ws_send_caller_only:
  "w \<notin> set (send_fails s) \<Longrightarrow> ws_send w (CommandResponse msg) s = caller_only w msg s"
  by (simp add: ws_send_def caller_only_def)

lemma except_Exception_caller_only [simp]:
  "except_Exception w (caller_only w' msg s) = caller_only w' msg s"
  by (simp add: except_Exception_def caller_only_def)

lemma cmd_file_failures:
  assumes "w \<notin> set (send_fails s)"
  shows "(length (py_split CHR '' '' 2 cmd) < 3 \<longrightarrow>
            cmd_file P now w username cmd s =
              caller_only w ''Usage: /file <username> <base64_encoded_file>'' s) \<and>
         (py_split CHR '' '' 2 cmd = [c0, target, file_data] \<longrightarrow>
            (user_websockets s target = None \<longrightarrow>
               cmd_file P now w username cmd s =
                 caller_only w (''User '' @ target @ '' is not online.'') s) \<and>
            (user_websockets s target \<noteq> None \<longrightarrow>
               (length (py_split CHR '';'' 1 file_data) \<noteq> 2 \<longrightarrow>
                  cmd_file P now w username cmd s =
                    caller_only w ''Error: Invalid file format'' s) \<and>
               (py_split CHR '';'' 1 file_data = [fname, data] \<longrightarrow>
                  (b64decode P data = None \<longrightarrow>
                     cmd_file P now w username cmd s =
                       caller_only w ''Error: Invalid base64 data'' s) \<and>
                  (b64decode P data = Some bytes \<and> length bytes > max_file_size \<longrightarrow>
                     cmd_file P now w username cmd s =
                       caller_only w ''File too large. Maximum size is 10MB.'' s))))"
  using assms
  by (auto simp: cmd_file_def file_try_def except_ValueError_def ws_send_caller_only Let_def)

text \<open>
  C5 (as the code has it): a \<open>/file\<close> line is checked in the order usage (fewer than three
  parts), target not online, shape \<open>filename;payload\<close>, Base64 decoding, size. Each failure
  sends one \<open>command_response\<close> to the caller and changes nothing else: no row is stored
  and no event is delivered.
\<close>

theorem file_validation_order:
  assumes "py_startswith (py_lower (py_strip command)) ''/file ''"
    and "w \<notin> set (send_fails s)"
    and "r = handle_command P now db_now w username command s"
  shows "(length (py_split CHR '' '' 2 (py_lower (py_strip command))) < 3 \<longrightarrow>
            r = caller_only w ''Usage: /file <username> <base64_encoded_file>'' s) \<and>
         (py_split CHR '' '' 2 (py_lower (py_strip command)) = [c0, target, file_data] \<longrightarrow>
            (user_websockets s target = None \<longrightarrow>
               r = caller_only w (''User '' @ target @ '' is not online.'') s) \<and>
            (user_websockets s target \<noteq> None \<longrightarrow>
               (length (py_split CHR '';'' 1 file_data) \<noteq> 2 \<longrightarrow>
                  r = caller_only w ''Error: Invalid file format'' s) \<and>
               (py_split CHR '';'' 1 file_data = [fname, data] \<longrightarrow>
                  (b64decode P data = None \<longrightarrow>
                     r = caller_only w ''Error: Invalid base64 data'' s) \<and>
                  (b64decode P data = Some bytes \<and> length bytes > max_file_size \<longrightarrow>
                     r = caller_only w ''File too large. Maximum size is 10MB.'' s))))"
  unfolding assms(3) handle_command_file [OF assms(1)]
  by (rule cmd_file_failures [OF assms(2)])

theorem file_validation_order_witness:
  "handle_command (example_prims []) 5 6 1 ''alice'' ''/file bob notes'' two_users =
     caller_only 1 ''Error: Invalid file format'' two_users \<and>
   handle_command (example_prims []) 5 6 1 ''alice'' ''/file bob notes;???'' two_users =
     caller_only 1 ''Error: Invalid base64 data'' two_users \<and>
   handle_command (example_prims (replicate (max_file_size + 1) 0)) 5 6 1 ''alice''
       ''/file bob notes;payload'' two_users =
     caller_only 1 ''File too large. Maximum size is 10MB.'' two_users"
proof -
  have sw: "py_startswith (py_lower (py_strip ''/file bob notes'')) ''/file ''"
    "py_startswith (py_lower (py_strip ''/file bob notes;???'')) ''/file ''"
    "py_startswith (py_lower (py_strip ''/file bob notes;payload'')) ''/file ''"
    by (simp_all add: string_defs)
  have ok: "1 \<notin> set (send_fails two_users)"
    by (simp add: two_users_def init_server_def)
  have sp: "py_split CHR '' '' 2 (py_lower (py_strip ''/file bob notes'')) =
              [''/file'', ''bob'', ''notes'']"
    "py_split CHR '' '' 2 (py_lower (py_strip ''/file bob notes;???'')) =
              [''/file'', ''bob'', ''notes;???'']"
    "py_split CHR '' '' 2 (py_lower (py_strip ''/file bob notes;payload'')) =
              [''/file'', ''bob'', ''notes;payload'']"
    by (simp_all add: string_defs numeral_2_eq_2)
  have on: "user_websockets two_users ''bob'' \<noteq> None"
    by (simp add: two_users_def init_server_def)
  have a: "handle_command (example_prims []) 5 6 1 ''alice'' ''/file bob notes'' two_users =
             caller_only 1 ''Error: Invalid file format'' two_users"
    using file_validation_order [OF sw(1) ok refl, where ?c0.0 = "''/file''" and target = "''bob''" and file_data = "''notes''"] sp(1) on
    by simp
  have b: "handle_command (example_prims []) 5 6 1 ''alice'' ''/file bob notes;???'' two_users =
             caller_only 1 ''Error: Invalid base64 data'' two_users"
    using file_validation_order [OF sw(2) ok refl, where ?c0.0 = "''/file''" and target = "''bob''"
            and file_data = "''notes;???''" and fname = "''notes''" and data = "''???''"] sp(2) on
    by (simp add: example_prims_def)
  have c: "handle_command (example_prims (replicate (max_file_size + 1) 0)) 5 6 1 ''alice''
             ''/file bob notes;payload'' two_users =
           caller_only 1 ''File too large. Maximum size is 10MB.'' two_users"
    using file_validation_order [OF sw(3) ok refl, where ?c0.0 = "''/file''" and target = "''bob''"
            and file_data = "''notes;payload''" and fname = "''notes''" and data = "''payload''"
            and bytes = "replicate (max_file_size + 1) 0"] sp(3) on
    by (simp add: example_prims_def)
  from a b c show ?thesis by simp
qed

text \<open>
  C5, counterexample. The order the claim gives fails: with a target that is not online
  and a payload without \<open>;\<close>, the caller is told that the user is not online, not that the
  format is wrong. The format error only appears once the target is online.
\<close>

theorem file_offline_checked_before_format:
  "handle_command (example_prims []) 5 6 1 ''alice'' ''/file carol notes'' two_users =
     caller_only 1 ''User carol is not online.'' two_users \<and>
   caller_only 1 ''User carol is not online.'' two_users \<noteq>
     caller_only 1 ''Error: Invalid file format'' two_users"
  by (simp add: router_defs string_defs caller_only_def two_users_def init_server_def Let_def
        numeral_2_eq_2)

lemma cmd_file_success:
  assumes "w \<notin> set (send_fails s)"
    and "py_split CHR '' '' 2 cmd = [c0, target, file_data]"
    and "py_split CHR '';'' 1 file_data = [fname, data]"
    and "user_websockets s target = Some tw"
    and "b64decode P data = Some bytes"
    and "length bytes \<le> max_file_size"
    and "users s username = Some sid" and "users s target = Some rid"
  shows "cmd_file P now w username cmd s =
           (None,
            s\<lparr>file_transfers := file_transfers s @
                 [\<lparr>filename = fname, size_bytes = length bytes, sender_id = sid,
                   receiver_id = rid, status = ''completed'',
                   file_hash = sha256_hexdigest P bytes\<rparr>],
              sent := sent s @
                 (if tw \<in> set (send_fails s) then []
                  else [(tw, FileEvent username fname (length bytes) data
                               (sha256_hexdigest P bytes) now)]) @
                 [(w, CommandResponse
                        (''File '' @ [CHR 0x27] @ fname @ [CHR 0x27] @ '' ('' @
                         py_str_nat (length bytes) @ '' bytes) sent to '' @ target))],
              log := log s @
                 (if tw \<in> set (send_fails s)
                  then [ErrorSendingTo target (ConnectionClosed tw)] else [])\<rparr>)"
  using assms
  by (simp add: cmd_file_def file_try_def notify_user_def ws_send_def except_Exception_def Let_def)

text \<open>
  C6: a \<open>/file\<close> line whose payload decodes to exactly 10 MiB is accepted (the row is
  stored as completed, the event goes to the target, the caller gets the confirmation);
  one byte more is refused with "File too large" to the caller only, and nothing is stored
  or delivered.
\<close>

theorem file_size_boundary:
  assumes "py_startswith (py_lower (py_strip command)) ''/file ''"
    and "py_split CHR '' '' 2 (py_lower (py_strip command)) = [c0, target, file_data]"
    and "py_split CHR '';'' 1 file_data = [fname, data]"
    and "user_websockets s target = Some tw"
    and "w \<notin> set (send_fails s)" and "tw \<notin> set (send_fails s)"
    and "users s username = Some sid" and "users s target = Some rid"
    and "b64decode P data = Some bytes"
    and "r = handle_command P now db_now w username command s"
  shows "max_file_size = 10485760 \<and>
         (length bytes = max_file_size \<longrightarrow>
            r = (None,
                 s\<lparr>file_transfers := file_transfers s @
                      [\<lparr>filename = fname, size_bytes = max_file_size, sender_id = sid,
                        receiver_id = rid, status = ''completed'',
                        file_hash = sha256_hexdigest P bytes\<rparr>],
                   sent := sent s @
                      [(tw, FileEvent username fname max_file_size data
                              (sha256_hexdigest P bytes) now),
                       (w, CommandResponse
                             (''File '' @ [CHR 0x27] @ fname @ [CHR 0x27] @ '' ('' @
                              py_str_nat max_file_size @ '' bytes) sent to '' @ target))]\<rparr>)) \<and>
         (length bytes = max_file_size + 1 \<longrightarrow>
            r = caller_only w ''File too large. Maximum size is 10MB.'' s)"
proof (intro conjI impI)
  show "max_file_size = 10485760" by (simp add: max_file_size_def)
next
  assume len: "length bytes = max_file_size"
  have r: "r = cmd_file P now w username (py_lower (py_strip command)) s"
    using assms(1,10) by (simp add: handle_command_file)
  show "r = (None,
                 s\<lparr>file_transfers := file_transfers s @
                      [\<lparr>filename = fname, size_bytes = max_file_size, sender_id = sid,
                        receiver_id = rid, status = ''completed'',
                        file_hash = sha256_hexdigest P bytes\<rparr>],
                   sent := sent s @
                      [(tw, FileEvent username fname max_file_size data
                              (sha256_hexdigest P bytes) now),
                       (w, CommandResponse
                             (''File '' @ [CHR 0x27] @ fname @ [CHR 0x27] @ '' ('' @
                              py_str_nat max_file_size @ '' bytes) sent to '' @ target))]\<rparr>)"
    unfolding r
    using cmd_file_success [OF assms(5) assms(2) assms(3) assms(4) assms(9) _ assms(7) assms(8),
            of now] len assms(6)
    by simp
next
  assume len: "length bytes = max_file_size + 1"
  have r: "r = cmd_file P now w username (py_lower (py_strip command)) s"
    using assms(1,10) by (simp add: handle_command_file)
  show "r = caller_only w ''File too large. Maximum size is 10MB.'' s"
    unfolding r
    using cmd_file_failures [OF assms(5), of "py_lower (py_strip command)" P now username
            c0 target file_data fname data bytes] assms(2,3,4,9) len
    by simp
qed

theorem file_size_boundary_witness:
  "file_transfers (snd (handle_command (example_prims (replicate max_file_size 0)) 5 6 1
       ''alice'' ''/file bob notes;payload'' two_users)) =
     [\<lparr>filename = ''notes'', size_bytes = 10485760, sender_id = 10, receiver_id = 20,
       status = ''completed'', file_hash = ''digest''\<rparr>] \<and>
   handle_command (example_prims (replicate (max_file_size + 1) 0)) 5 6 1
       ''alice'' ''/file bob notes;payload'' two_users =
     caller_only 1 ''File too large. Maximum size is 10MB.'' two_users"
proof -
  have sw: "py_startswith (py_lower (py_strip ''/file bob notes;payload'')) ''/file ''"
    by (simp add: string_defs)
  have sp: "py_split CHR '' '' 2 (py_lower (py_strip ''/file bob notes;payload'')) =
              [''/file'', ''bob'', ''notes;payload'']"
    by (simp add: string_defs numeral_2_eq_2)
  have fp: "py_split CHR '';'' 1 ''notes;payload'' = [''notes'', ''payload'']"
    by simp
  have st: "user_websockets two_users ''bob'' = Some 2" "1 \<notin> set (send_fails two_users)"
    "2 \<notin> set (send_fails two_users)" "users two_users ''alice'' = Some 10"
    "users two_users ''bob'' = Some 20" "file_transfers two_users = []"
    by (simp_all add: two_users_def init_server_def)
  have d1: "b64decode (example_prims (replicate max_file_size 0)) ''payload'' =
              Some (replicate max_file_size 0)"
    and d2: "b64decode (example_prims (replicate (max_file_size + 1) 0)) ''payload'' =
              Some (replicate (max_file_size + 1) 0)"
    by (simp_all add: example_prims_def)
  have h: "sha256_hexdigest (example_prims (replicate max_file_size 0))
             (replicate max_file_size 0) = ''digest''"
    by (simp add: example_prims_def)
  from file_size_boundary [OF sw sp fp st(1) st(2) st(3) st(4) st(5) d1 refl]
  have "file_transfers (snd (handle_command (example_prims (replicate max_file_size 0)) 5 6 1
       ''alice'' ''/file bob notes;payload'' two_users)) =
     [\<lparr>filename = ''notes'', size_bytes = 10485760, sender_id = 10, receiver_id = 20,
       status = ''completed'', file_hash = ''digest''\<rparr>]"
    by (simp add: st(6) h)
  moreover
  from file_size_boundary [OF sw sp fp st(1) st(2) st(3) st(4) st(5) d2 refl]
  have "handle_command (example_prims (replicate (max_file_size + 1) 0)) 5 6 1
       ''alice'' ''/file bob notes;payload'' two_users =
     caller_only 1 ''File too large. Maximum size is 10MB.'' two_users"
    by simp
  ultimately show ?thesis by simp
qed

lemma receive_file_mismatch:
  assumes "b64decode P base64_data = Some bytes"
    and "sha256_hexdigest P bytes \<noteq> fhash"
    and "py_lower (ask ''Save file?'') = ''y''" and "mkdir_ok"
  shows "receive_file P ask mkdir_ok write_ok dir username fname fsize fhash base64_data c =
           (let c2 = c\<lparr>console := console c @
                       [Print (''[File] '' @ username @ '' sent you a file: '' @ fname @ '' ('' @
                               py_str_nat fsize @ '' bytes)''),
                        Ask ''Save file?'',
                        Print ''[bold red]Warning: File integrity check failed![/bold red]'',
                        Ask ''Save anyway?'']\<rparr>
            in if py_lower (ask ''Save anyway?'') = ''y''
               then write_file write_ok (path_join dir fname) bytes c2
               else c2\<lparr>console := console c2 @ [Print ''[yellow]File not saved.[/yellow]'']\<rparr>)"
  using assms by (simp add: receive_file_def Let_def)

text \<open>
  C7: when a transfer completes, the row stored and the \<open>file\<close> event delivered carry the
  SHA-256 digest of the bytes that the delivered payload decodes to. On the receiving side,
  when the digest recomputed from the payload differs from the advertised one, the handler
  prints the warning and asks "Save anyway?": the file is written only after the answer
  \<open>y\<close>, and when it is not written the last line printed says so.
\<close>

theorem file_hash_matches_or_receiver_warned:
  assumes "py_startswith (py_lower (py_strip command)) ''/file ''"
    and "py_split CHR '' '' 2 (py_lower (py_strip command)) = [c0, target, file_data]"
    and "py_split CHR '';'' 1 file_data = [fname, data]"
    and "user_websockets s target = Some tw"
    and "w \<notin> set (send_fails s)" and "tw \<notin> set (send_fails s)"
    and "users s username = Some sid" and "users s target = Some rid"
    and "b64decode P data = Some bytes" and "length bytes \<le> max_file_size"
    and "r = handle_command P now db_now w username command s"
    and "c' = receive_file P ask mkdir_ok write_ok dir u rname rsize rhash rdata c"
    and "b64decode P rdata = Some rbytes" and "sha256_hexdigest P rbytes \<noteq> rhash"
    and "py_lower (ask ''Save file?'') = ''y''" and "mkdir_ok"
  shows "file_transfers (snd r) = file_transfers s @
           [\<lparr>filename = fname, size_bytes = length bytes, sender_id = sid, receiver_id = rid,
             status = ''completed'', file_hash = sha256_hexdigest P bytes\<rparr>] \<and>
         (tw, FileEvent username fname (length bytes) data (sha256_hexdigest P bytes) now)
           \<in> set (sent (snd r)) \<and>
         take 4 (drop (length (console c)) (console c')) =
           [Print (''[File] '' @ u @ '' sent you a file: '' @ rname @ '' ('' @
                   py_str_nat rsize @ '' bytes)''),
            Ask ''Save file?'',
            Print ''[bold red]Warning: File integrity check failed![/bold red]'',
            Ask ''Save anyway?''] \<and>
         (saved c' \<noteq> saved c \<longrightarrow> py_lower (ask ''Save anyway?'') = ''y'') \<and>
         (py_lower (ask ''Save anyway?'') = ''y'' \<and> write_ok \<longrightarrow>
            saved c' = saved c @ [(path_join dir rname, rbytes)]) \<and>
         (saved c' = saved c \<longrightarrow>
            last (console c') = Print ''[yellow]File not saved.[/yellow]'' \<or>
            last (console c') = ErrorSaving)"
proof -
  have r: "r = cmd_file P now w username (py_lower (py_strip command)) s"
    using assms(1,11) by (simp add: handle_command_file)
  have srv: "file_transfers (snd r) = file_transfers s @
           [\<lparr>filename = fname, size_bytes = length bytes, sender_id = sid, receiver_id = rid,
             status = ''completed'', file_hash = sha256_hexdigest P bytes\<rparr>]"
    "(tw, FileEvent username fname (length bytes) data (sha256_hexdigest P bytes) now)
           \<in> set (sent (snd r))"
    unfolding r
    using cmd_file_success [OF assms(5) assms(2) assms(3) assms(4) assms(9) assms(10) assms(7)
            assms(8), of now] assms(6)
    by simp_all
  have c': "c' = (let c2 = c\<lparr>console := console c @
                       [Print (''[File] '' @ u @ '' sent you a file: '' @ rname @ '' ('' @
                               py_str_nat rsize @ '' bytes)''),
                        Ask ''Save file?'',
                        Print ''[bold red]Warning: File integrity check failed![/bold red]'',
                        Ask ''Save anyway?'']\<rparr>
            in if py_lower (ask ''Save anyway?'') = ''y''
               then write_file write_ok (path_join dir rname) rbytes c2
               else c2\<lparr>console := console c2 @ [Print ''[yellow]File not saved.[/yellow]'']\<rparr>)"
    unfolding assms(12)
    using receive_file_mismatch
            [of P rdata rbytes rhash ask mkdir_ok write_ok dir u rname rsize c] assms(13-16)
    by blast
  have cl: "take 4 (drop (length (console c)) (console c')) =
           [Print (''[File] '' @ u @ '' sent you a file: '' @ rname @ '' ('' @
                   py_str_nat rsize @ '' bytes)''),
            Ask ''Save file?'',
            Print ''[bold red]Warning: File integrity check failed![/bold red]'',
            Ask ''Save anyway?'']"
    "saved c' \<noteq> saved c \<longrightarrow> py_lower (ask ''Save anyway?'') = ''y''"
    "py_lower (ask ''Save anyway?'') = ''y'' \<and> write_ok \<longrightarrow>
            saved c' = saved c @ [(path_join dir rname, rbytes)]"
    "saved c' = saved c \<longrightarrow>
            last (console c') = Print ''[yellow]File not saved.[/yellow]'' \<or>
            last (console c') = ErrorSaving"
    unfolding c' by (simp_all add: write_file_def Let_def)
  from srv cl show ?thesis by blast
qed

theorem file_hash_matches_or_receiver_warned_witness:
  "file_transfers (snd (handle_command (example_prims [0x68, 0x69]) 5 6 1
       ''alice'' ''/file bob notes;payload'' two_users)) =
     [\<lparr>filename = ''notes'', size_bytes = 2, sender_id = 10, receiver_id = 20,
       status = ''completed'', file_hash = ''digest''\<rparr>] \<and>
   (2, FileEvent ''alice'' ''notes'' 2 ''payload'' ''digest'' 5)
     \<in> set (sent (snd (handle_command (example_prims [0x68, 0x69]) 5 6 1
       ''alice'' ''/file bob notes;payload'' two_users))) \<and>
   saved (receive_file (example_prims [0x68, 0x69]) (\<lambda>q. ''y'') True True ''/home/bob/dl''
            ''alice'' ''notes'' 2 ''another digest'' ''payload'' \<lparr>console = [], saved = []\<rparr>) =
     [(''/home/bob/dl/notes'', [0x68, 0x69])]"
proof -
  let ?P = "example_prims [0x68, 0x69]"
  have sw: "py_startswith (py_lower (py_strip ''/file bob notes;payload'')) ''/file ''"
    by (simp add: string_defs)
  have sp: "py_split CHR '' '' 2 (py_lower (py_strip ''/file bob notes;payload'')) =
              [''/file'', ''bob'', ''notes;payload'']"
    by (simp add: string_defs numeral_2_eq_2)
  have fp: "py_split CHR '';'' 1 ''notes;payload'' = [''notes'', ''payload'']"
    by simp
  have st: "user_websockets two_users ''bob'' = Some 2" "1 \<notin> set (send_fails two_users)"
    "2 \<notin> set (send_fails two_users)" "users two_users ''alice'' = Some 10"
    "users two_users ''bob'' = Some 20" "file_transfers two_users = []"
    by (simp_all add: two_users_def init_server_def)
  have d: "b64decode ?P ''payload'' = Some [0x68, 0x69]"
    and len: "length [0x68 :: byte, 0x69] \<le> max_file_size"
    and h: "sha256_hexdigest ?P [0x68, 0x69] \<noteq> ''another digest''"
    and y: "py_lower ((\<lambda>q. ''y'') ''Save file?'') = ''y''"
    by (simp_all add: example_prims_def max_file_size_def string_defs)
  note inst = file_hash_matches_or_receiver_warned
         [OF sw sp fp st(1) st(2) st(3) st(4) st(5) d len refl refl d h y TrueI,
          where now = 5 and db_now = 6 and write_ok = True and dir = "''/home/bob/dl''"
            and u = "''alice''" and rname = "''notes''" and rsize = 2
            and c = "\<lparr>console = [], saved = []\<rparr>"]
  have hd: "sha256_hexdigest ?P [0x68, 0x69] = ''digest''"
    by (simp add: example_prims_def)
  from inst have "file_transfers (snd (handle_command ?P 5 6 1
       ''alice'' ''/file bob notes;payload'' two_users)) =
     [\<lparr>filename = ''notes'', size_bytes = 2, sender_id = 10, receiver_id = 20,
       status = ''completed'', file_hash = ''digest''\<rparr>]"
    by (simp add: st(6) hd numeral_2_eq_2)
  moreover
  from inst have "(2, FileEvent ''alice'' ''notes'' 2 ''payload'' ''digest'' 5)
     \<in> set (sent (snd (handle_command ?P 5 6 1
       ''alice'' ''/file bob notes;payload'' two_users)))"
    by (simp add: hd numeral_2_eq_2)
  moreover
  have "py_lower ((\<lambda>q. ''y'') ''Save anyway?'') = ''y'' \<and> True"
    by (simp add: string_defs)
  with inst have "saved (receive_file ?P (\<lambda>q. ''y'') True True ''/home/bob/dl''
            ''alice'' ''notes'' 2 ''another digest'' ''payload'' \<lparr>console = [], saved = []\<rparr>) =
     [(''/home/bob/dl/notes'', [0x68, 0x69])]"
    by (simp add: path_join_def py_startswith_def)
  ultimately show ?thesis by simp
qed

section \<open>The router reads the stripped, lower-cased line\<close>

lemma command_line_parts:
  assumes "CHR '' '' \<notin> set name" "msg \<noteq> []" "\<not> is_space (last msg)"
    and "k = ''/whisper'' \<or> k = ''/w'' \<or> k = ''/file''"
  shows "py_lower (py_strip (k @ CHR '' '' # name @ CHR '' '' # msg)) =
           k @ CHR '' '' # py_lower name @ CHR '' '' # py_lower msg"
    and "py_split CHR '' '' 2 (k @ CHR '' '' # py_lower name @ CHR '' '' # py_lower msg) =
           [k, py_lower name, py_lower msg]"
proof -
  let ?c = "k @ CHR '' '' # name @ CHR '' '' # msg"
  have "?c \<noteq> []" "\<not> is_space (hd ?c)" "\<not> is_space (last ?c)"
    using assms(2,3,4) by (auto simp: is_space_def)
  then have st: "py_strip ?c = ?c" by (rule py_strip_id)
  have lk: "map lower_char k = k"
    using assms(4) by (auto simp: lower_char_def is_upper_def)
  have ls: "lower_char CHR '' '' = CHR '' ''"
    by (simp add: lower_char_def is_upper_def)
  show "py_lower (py_strip ?c) = k @ CHR '' '' # py_lower name @ CHR '' '' # py_lower msg"
    unfolding st by (simp add: py_lower_def lk ls)
  have "CHR '' '' \<notin> set k" using assms(4) by auto
  then show "py_split CHR '' '' 2 (k @ CHR '' '' # py_lower name @ CHR '' '' # py_lower msg) =
           [k, py_lower name, py_lower msg]"
    using no_space_lower [OF assms(1)] by (rule py_split_two)
qed

lemma whisper_line:
  assumes "CHR '' '' \<notin> set name" "msg \<noteq> []" "\<not> is_space (last msg)"
    and k: "k = ''/whisper'' \<or> k = ''/w''"
  shows "handle_command P now db_now w username (k @ CHR '' '' # name @ CHR '' '' # msg) s =
           (if user_websockets s (py_lower name) = None
            then ws_send w (CommandResponse (''User '' @ py_lower name @ '' is not online.'')) s
            else ws_send w (CommandResponse (''Whisper sent to '' @ py_lower name))
                   (snd (notify_user (py_lower name) (Whisper username (py_lower msg) now) s)))"
proof -
  define cmd where "cmd = k @ CHR '' '' # py_lower name @ CHR '' '' # py_lower msg"
  have k': "k = ''/whisper'' \<or> k = ''/w'' \<or> k = ''/file''" using k by blast
  have 1: "py_lower (py_strip (k @ CHR '' '' # name @ CHR '' '' # msg)) = cmd"
    unfolding cmd_def by (rule command_line_parts(1) [OF assms(1,2,3) k'])
  have 2: "py_split CHR '' '' 2 cmd = [k, py_lower name, py_lower msg]"
    unfolding cmd_def by (rule command_line_parts(2) [OF assms(1,2,3) k'])
  have 3: "cmd \<noteq> ''/users''" "cmd \<noteq> ''/clear''" "cmd \<noteq> ''/quit''" "cmd \<noteq> ''/exit''"
    "py_startswith cmd ''/whisper '' \<or> py_startswith cmd ''/w ''"
    using k by (auto simp: cmd_def py_startswith_def)
  have "handle_command P now db_now w username (k @ CHR '' '' # name @ CHR '' '' # msg) s =
          cmd_whisper now w username cmd s"
    unfolding handle_command_def 1 using 3 by (simp add: Let_def)
  also have "\<dots> = (if user_websockets s (py_lower name) = None
            then ws_send w (CommandResponse (''User '' @ py_lower name @ '' is not online.'')) s
            else ws_send w (CommandResponse (''Whisper sent to '' @ py_lower name))
                   (snd (notify_user (py_lower name) (Whisper username (py_lower msg) now) s)))"
    unfolding cmd_whisper_def 2 by (simp add: Let_def split: prod.splits)
  finally show ?thesis .
qed

lemma file_line:
  assumes "CHR '' '' \<notin> set name" "msg \<noteq> []" "\<not> is_space (last msg)"
  shows "handle_command P now db_now w username (''/file'' @ CHR '' '' # name @ CHR '' '' # msg) s =
           (if user_websockets s (py_lower name) = None
            then ws_send w (CommandResponse (''User '' @ py_lower name @ '' is not online.'')) s
            else file_try P now w username (py_lower name) (py_lower msg) s)"
proof -
  define cmd where "cmd = ''/file'' @ CHR '' '' # py_lower name @ CHR '' '' # py_lower msg"
  have 1: "py_lower (py_strip (''/file'' @ CHR '' '' # name @ CHR '' '' # msg)) = cmd"
    unfolding cmd_def by (rule command_line_parts(1) [OF assms(1,2,3)]) simp
  have 2: "py_split CHR '' '' 2 cmd = [''/file'', py_lower name, py_lower msg]"
    unfolding cmd_def by (rule command_line_parts(2) [OF assms(1,2,3)]) simp
  have 3: "py_startswith cmd ''/file ''"
    by (simp add: cmd_def py_startswith_def)
  have "handle_command P now db_now w username
          (''/file'' @ CHR '' '' # name @ CHR '' '' # msg) s = cmd_file P now w username cmd s"
    using handle_command_file [of "''/file'' @ CHR '' '' # name @ CHR '' '' # msg"] 3
    unfolding 1 by blast
  also have "\<dots> = (if user_websockets s (py_lower name) = None
            then ws_send w (CommandResponse (''User '' @ py_lower name @ '' is not online.'')) s
            else file_try P now w username (py_lower name) (py_lower msg) s)"
    unfolding cmd_file_def 2 by (simp add: Let_def)
  finally show ?thesis .
qed

lemma line_target_lowered:
  assumes "CHR '' '' \<notin> set name" "msg \<noteq> []" "\<not> is_space (last msg)"
    and k: "k = ''/whisper'' \<or> k = ''/w'' \<or> k = ''/file''"
  shows "handle_command P now db_now w username (k @ CHR '' '' # name @ CHR '' '' # msg) s =
         handle_command P now db_now w username (k @ CHR '' '' # py_lower name @ CHR '' '' # msg) s"
proof -
  have "py_lower (py_strip (k @ CHR '' '' # name @ CHR '' '' # msg)) =
        py_lower (py_strip (k @ CHR '' '' # py_lower name @ CHR '' '' # msg))"
    using command_line_parts(1) [OF assms(1,2,3) k]
      command_line_parts(1) [OF no_space_lower [OF assms(1)] assms(2,3) k]
    by (simp add: py_lower_idem)
  then show ?thesis
    by (simp add: handle_command_def)
qed

text \<open>
  C10 (as the code has it): \<open>handle_command\<close> reads nothing of the line but its stripped,
  lower-cased form, so \<open>/USERS\<close> is \<open>/users\<close>, and the target of \<open>/whisper\<close>, \<open>/w\<close> and
  \<open>/file\<close> is looked up in lower case: a line addressed to a name is handled as the line
  addressed to the lower-cased name, and when the lower-cased name is not registered the
  caller is told that this user is not online, whether or not the name as typed is
  registered.
\<close>

theorem router_reads_lowercased_line:
  assumes "CHR '' '' \<notin> set name" "msg \<noteq> []" "\<not> is_space (last msg)"
    and "w \<notin> set (send_fails s)"
  shows "handle_command P now db_now w username command s =
           handle_command P now db_now w username (py_lower (py_strip command)) s \<and>
         handle_command P now db_now w username ''/USERS'' s =
           handle_command P now db_now w username ''/users'' s \<and>
         handle_command P now db_now w username (''/whisper '' @ name @ '' '' @ msg) s =
           handle_command P now db_now w username (''/whisper '' @ py_lower name @ '' '' @ msg) s \<and>
         handle_command P now db_now w username (''/w '' @ name @ '' '' @ msg) s =
           handle_command P now db_now w username (''/w '' @ py_lower name @ '' '' @ msg) s \<and>
         handle_command P now db_now w username (''/file '' @ name @ '' '' @ msg) s =
           handle_command P now db_now w username (''/file '' @ py_lower name @ '' '' @ msg) s \<and>
         (user_websockets s (py_lower name) = None \<longrightarrow>
            handle_command P now db_now w username (''/whisper '' @ name @ '' '' @ msg) s =
              caller_only w (''User '' @ py_lower name @ '' is not online.'') s \<and>
            handle_command P now db_now w username (''/w '' @ name @ '' '' @ msg) s =
              caller_only w (''User '' @ py_lower name @ '' is not online.'') s \<and>
            handle_command P now db_now w username (''/file '' @ name @ '' '' @ msg) s =
              caller_only w (''User '' @ py_lower name @ '' is not online.'') s)"
proof (intro conjI impI)
  show "handle_command P now db_now w username command s =
          handle_command P now db_now w username (py_lower (py_strip command)) s"
    by (simp add: handle_command_def lower_strip_idem)
  show "handle_command P now db_now w username ''/USERS'' s =
          handle_command P now db_now w username ''/users'' s"
    by (simp add: handle_command_def string_defs)
  show "handle_command P now db_now w username (''/whisper '' @ name @ '' '' @ msg) s =
        handle_command P now db_now w username (''/whisper '' @ py_lower name @ '' '' @ msg) s"
    using line_target_lowered [OF assms(1,2,3), of "''/whisper''" P now db_now w username s]
    by simp
  show "handle_command P now db_now w username (''/w '' @ name @ '' '' @ msg) s =
        handle_command P now db_now w username (''/w '' @ py_lower name @ '' '' @ msg) s"
    using line_target_lowered [OF assms(1,2,3), of "''/w''" P now db_now w username s]
    by simp
  show "handle_command P now db_now w username (''/file '' @ name @ '' '' @ msg) s =
        handle_command P now db_now w username (''/file '' @ py_lower name @ '' '' @ msg) s"
    using line_target_lowered [OF assms(1,2,3), of "''/file''" P now db_now w username s]
    by simp
next
  assume off: "user_websockets s (py_lower name) = None"
  show "handle_command P now db_now w username (''/whisper '' @ name @ '' '' @ msg) s =
          caller_only w (''User '' @ py_lower name @ '' is not online.'') s"
    using whisper_line [OF assms(1,2,3), of "''/whisper''" P now db_now w username s] off assms(4)
    by (simp add: ws_send_caller_only)
  show "handle_command P now db_now w username (''/w '' @ name @ '' '' @ msg) s =
          caller_only w (''User '' @ py_lower name @ '' is not online.'') s"
    using whisper_line [OF assms(1,2,3), of "''/w''" P now db_now w username s] off assms(4)
    by (simp add: ws_send_caller_only)
  show "handle_command P now db_now w username (''/file '' @ name @ '' '' @ msg) s =
          caller_only w (''User '' @ py_lower name @ '' is not online.'') s"
    using file_line [OF assms(1,2,3), of P now db_now w username s] off assms(4)
    by (simp add: ws_send_caller_only)
qed

theorem router_reads_lowercased_line_witness:
  "handle_command (example_prims []) 5 6 1 ''alice'' ''/whisper Bob Hi''
       (two_users\<lparr>user_websockets := [''alice'' \<mapsto> 1, ''Bob'' \<mapsto> 3]\<rparr>) =
     caller_only 1 ''User bob is not online.''
       (two_users\<lparr>user_websockets := [''alice'' \<mapsto> 1, ''Bob'' \<mapsto> 3]\<rparr>) \<and>
   handle_command (example_prims []) 5 6 1 ''alice'' ''/w Bob Hi''
       (two_users\<lparr>user_websockets := [''alice'' \<mapsto> 1, ''Bob'' \<mapsto> 3]\<rparr>) =
     caller_only 1 ''User bob is not online.''
       (two_users\<lparr>user_websockets := [''alice'' \<mapsto> 1, ''Bob'' \<mapsto> 3]\<rparr>) \<and>
   handle_command (example_prims []) 5 6 1 ''alice'' ''/file Bob notes;payload''
       (two_users\<lparr>user_websockets := [''alice'' \<mapsto> 1, ''Bob'' \<mapsto> 3]\<rparr>) =
     caller_only 1 ''User bob is not online.''
       (two_users\<lparr>user_websockets := [''alice'' \<mapsto> 1, ''Bob'' \<mapsto> 3]\<rparr>)"
proof -
  let ?s = "two_users\<lparr>user_websockets := [''alice'' \<mapsto> 1, ''Bob'' \<mapsto> 3]\<rparr>"
  let ?P = "example_prims []"
  have ok: "1 \<notin> set (send_fails ?s)"
    by (simp add: two_users_def init_server_def)
  have n: "CHR '' '' \<notin> set ''Bob''" and l: "py_lower ''Bob'' = ''bob''"
    and off: "user_websockets ?s (py_lower ''Bob'') = None"
    by (simp_all add: string_defs two_users_def init_server_def)
  have m1: "''Hi'' \<noteq> []" "\<not> is_space (last ''Hi'')"
    and m2: "''notes;payload'' \<noteq> []" "\<not> is_space (last ''notes;payload'')"
    by (simp_all add: is_space_def)
  have "handle_command ?P 5 6 1 ''alice'' (''/whisper '' @ ''Bob'' @ '' '' @ ''Hi'') ?s =
          caller_only 1 (''User '' @ py_lower ''Bob'' @ '' is not online.'') ?s"
    and "handle_command ?P 5 6 1 ''alice'' (''/w '' @ ''Bob'' @ '' '' @ ''Hi'') ?s =
          caller_only 1 (''User '' @ py_lower ''Bob'' @ '' is not online.'') ?s"
    using router_reads_lowercased_line [OF n m1 ok, where P = ?P and now = 5 and db_now = 6
            and username = "''alice''"] off
    by blast+
  moreover
  have "handle_command ?P 5 6 1 ''alice'' (''/file '' @ ''Bob'' @ '' '' @ ''notes;payload'') ?s =
          caller_only 1 (''User '' @ py_lower ''Bob'' @ '' is not online.'') ?s"
    using router_reads_lowercased_line [OF n m2 ok, where P = ?P and now = 5 and db_now = 6
            and username = "''alice''"] off
    by blast
  ultimately show ?thesis by (simp add: l)
qed

text \<open>
  C10, counterexample. The claim's last clause fails when the lower-cased name is registered too: with both
  \<open>Bob\<close> and \<open>bob\<close> online, a whisper addressed to \<open>Bob\<close> is not refused; it is delivered
  to \<open>bob\<close>.
\<close>

theorem whisper_to_uppercase_name_reaches_lowercase_user:
  "user_websockets (two_users\<lparr>user_websockets := [''alice'' \<mapsto> 1, ''bob'' \<mapsto> 2, ''Bob'' \<mapsto> 3]\<rparr>)
     ''Bob'' = Some 3 \<and>
   handle_command (example_prims []) 5 6 1 ''alice'' ''/whisper Bob hi''
       (two_users\<lparr>user_websockets := [''alice'' \<mapsto> 1, ''bob'' \<mapsto> 2, ''Bob'' \<mapsto> 3]\<rparr>) =
     (None,
      two_users\<lparr>user_websockets := [''alice'' \<mapsto> 1, ''bob'' \<mapsto> 2, ''Bob'' \<mapsto> 3],
                sent := [(2, Whisper ''alice'' ''hi'' 5),
                         (1, CommandResponse ''Whisper sent to bob'')]\<rparr>)"
  by (simp add: router_defs string_defs two_users_def init_server_def Let_def numeral_2_eq_2)

section \<open>Decoding UTF-8 determines the bytes\<close>

lemma divmod_base:
  fixes q r m :: nat
  assumes "r < m"
  shows "(q * m + r) div m = q" "(q * m + r) mod m = r"
  using assms by simp_all

lemma enc2:
  fixes a d :: nat
  assumes "2 \<le> a" "a < 32" "d < 64"
  shows "0x80 \<le> a * 64 + d" "a * 64 + d < 0x800"
    "(a * 64 + d) div 64 = a" "(a * 64 + d) mod 64 = d"
proof -
  show "0x80 \<le> a * 64 + d" "a * 64 + d < 0x800"
    using assms by linarith+
  show "(a * 64 + d) div 64 = a" "(a * 64 + d) mod 64 = d"
    using assms(3) by (rule divmod_base)+
qed

lemma enc3:
  fixes a b c :: nat
  assumes "a < 16" "b < 64" "c < 64" "32 \<le> b \<or> 1 \<le> a"
  shows "0x800 \<le> a * 4096 + b * 64 + c" "a * 4096 + b * 64 + c < 0x10000"
    "(a * 4096 + b * 64 + c) div 4096 = a"
    "(a * 4096 + b * 64 + c) div 64 mod 64 = b"
    "(a * 4096 + b * 64 + c) mod 64 = c"
proof -
  show "0x800 \<le> a * 4096 + b * 64 + c" "a * 4096 + b * 64 + c < 0x10000"
    using assms by linarith+
  have lo: "b * 64 + c < 4096" using assms by linarith
  have "a * 4096 + b * 64 + c = a * 4096 + (b * 64 + c)" by simp
  then show "(a * 4096 + b * 64 + c) div 4096 = a"
    using divmod_base(1) [OF lo, of a] by simp
  have e: "a * 4096 + b * 64 + c = (a * 64 + b) * 64 + c" by simp
  have "(a * 4096 + b * 64 + c) div 64 = a * 64 + b"
    unfolding e using assms(3) by (rule divmod_base(1))
  then show "(a * 4096 + b * 64 + c) div 64 mod 64 = b"
    using divmod_base(2) [OF assms(2), of a] by simp
  show "(a * 4096 + b * 64 + c) mod 64 = c"
    unfolding e using assms(3) by (rule divmod_base(2))
qed

lemma enc4:
  fixes a b c d :: nat
  assumes "a < 5" "b < 64" "c < 64" "d < 64" "16 \<le> b \<or> 1 \<le> a"
  shows "0x10000 \<le> a * 262144 + b * 4096 + c * 64 + d"
    "(a * 262144 + b * 4096 + c * 64 + d) div 262144 = a"
    "(a * 262144 + b * 4096 + c * 64 + d) div 4096 mod 64 = b"
    "(a * 262144 + b * 4096 + c * 64 + d) div 64 mod 64 = c"
    "(a * 262144 + b * 4096 + c * 64 + d) mod 64 = d"
proof -
  let ?cp = "a * 262144 + b * 4096 + c * 64 + d"
  show "0x10000 \<le> ?cp" using assms by linarith
  have lo: "b * 4096 + c * 64 + d < 262144" using assms by linarith
  have "?cp = a * 262144 + (b * 4096 + c * 64 + d)" by simp
  then show "?cp div 262144 = a"
    using divmod_base(1) [OF lo, of a] by simp
  have lo2: "c * 64 + d < 4096" using assms by linarith
  have e2: "?cp = (a * 64 + b) * 4096 + (c * 64 + d)" by simp
  have "?cp div 4096 = a * 64 + b"
    unfolding e2 using lo2 by (rule divmod_base(1))
  then show "?cp div 4096 mod 64 = b"
    using divmod_base(2) [OF assms(2), of a] by simp
  have e3: "?cp = ((a * 64 + b) * 64 + c) * 64 + d" by simp
  have "?cp div 64 = (a * 64 + b) * 64 + c"
    unfolding e3 using assms(4) by (rule divmod_base(1))
  then show "?cp div 64 mod 64 = c"
    using divmod_base(2) [OF assms(3), of "a * 64 + b"] by simp
  show "?cp mod 64 = d"
    unfolding e3 using assms(4) by (rule divmod_base(2))
qed

lemma utf8_head_enc:
  assumes "utf8_head bs = Some (cp, r)"
  shows "bs = utf8_enc1 cp @ r"
proof (cases bs)
  case Nil
  with assms show ?thesis by simp
next
  case (Cons b0 rest)
  define n0 where "n0 = unat b0"
  have b0: "of_nat n0 = b0" by (simp add: n0_def)
  consider (one) "n0 < 0x80"
    | (two) "0xC2 \<le> n0" "n0 \<le> 0xDF"
    | (three) "0xE0 \<le> n0" "n0 \<le> 0xEF"
    | (four) "0xF0 \<le> n0" "n0 \<le> 0xF4"
    | (bad) "0x80 \<le> n0" "n0 < 0xC2 \<or> 0xF4 < n0"
    by linarith
  then show ?thesis
  proof cases
    case one
    with assms Cons have "cp = n0" "r = rest"
      by (simp_all add: n0_def Let_def)
    with one b0 Cons show ?thesis by (simp add: utf8_enc1_def)
  next
    case two
    with assms Cons obtain b1 where rest: "rest = b1 # r" and c1: "is_cont b1"
      and cp: "cp = (n0 - 0xC0) * 64 + (unat b1 - 0x80)"
      by (auto simp: n0_def Let_def split: list.splits if_splits)
    define a d where "a = n0 - 0xC0" and "d = unat b1 - 0x80"
    have r: "2 \<le> a" "a < 32" "d < 64" "n0 = 0xC0 + a" "unat b1 = 0x80 + d"
      using two c1 by (auto simp: a_def d_def is_cont_def)
    have cp': "cp = a * 64 + d" by (simp add: cp a_def d_def)
    have "of_nat (0x80 + d) = b1" using r(5) [symmetric] by simp
    moreover have "of_nat (0xC0 + a) = b0" using r(4) b0 by simp
    ultimately show ?thesis
      using enc2 [OF r(1,2,3)] Cons rest
      by (simp add: utf8_enc1_def cp')
  next
    case three
    with assms Cons obtain b1 b2 where rest: "rest = b1 # b2 # r"
      and c1: "(if n0 = 0xE0 then 0xA0 else 0x80) \<le> unat b1"
              "unat b1 \<le> (if n0 = 0xED then 0x9F else 0xBF)"
      and c2: "is_cont b2"
      and cp: "cp = (n0 - 0xE0) * 4096 + (unat b1 - 0x80) * 64 + (unat b2 - 0x80)"
      by (auto simp: n0_def Let_def split: list.splits if_splits)
    define a b c where "a = n0 - 0xE0" and "b = unat b1 - 0x80" and "c = unat b2 - 0x80"
    have r: "a < 16" "b < 64" "c < 64" "32 \<le> b \<or> 1 \<le> a"
      "n0 = 0xE0 + a" "unat b1 = 0x80 + b" "unat b2 = 0x80 + c"
      using three c1 c2 by (auto simp: a_def b_def c_def is_cont_def split: if_splits)
    have cp': "cp = a * 4096 + b * 64 + c" by (simp add: cp a_def b_def c_def)
    have "of_nat (0x80 + b) = b1" using r(6) [symmetric] by simp
    moreover have "of_nat (0x80 + c) = b2" using r(7) [symmetric] by simp
    moreover have "of_nat (0xE0 + a) = b0" using r(5) b0 by simp
    ultimately show ?thesis
      using enc3 [OF r(1,2,3,4)] Cons rest
      by (simp add: utf8_enc1_def cp')
  next
    case four
    with assms Cons obtain b1 b2 b3 where rest: "rest = b1 # b2 # b3 # r"
      and c1: "(if n0 = 0xF0 then 0x90 else 0x80) \<le> unat b1"
              "unat b1 \<le> (if n0 = 0xF4 then 0x8F else 0xBF)"
      and c2: "is_cont b2" and c3: "is_cont b3"
      and cp: "cp = (n0 - 0xF0) * 262144 + (unat b1 - 0x80) * 4096 +
                    (unat b2 - 0x80) * 64 + (unat b3 - 0x80)"
      by (auto simp: n0_def Let_def split: list.splits if_splits)
    define a b c d where "a = n0 - 0xF0" and "b = unat b1 - 0x80" and "c = unat b2 - 0x80"
      and "d = unat b3 - 0x80"
    have r: "a < 5" "b < 64" "c < 64" "d < 64" "16 \<le> b \<or> 1 \<le> a"
      "n0 = 0xF0 + a" "unat b1 = 0x80 + b" "unat b2 = 0x80 + c" "unat b3 = 0x80 + d"
      using four c1 c2 c3 by (auto simp: a_def b_def c_def d_def is_cont_def split: if_splits)
    have cp': "cp = a * 262144 + b * 4096 + c * 64 + d"
      by (simp add: cp a_def b_def c_def d_def)
    have "of_nat (0x80 + b) = b1" using r(7) [symmetric] by simp
    moreover have "of_nat (0x80 + c) = b2" using r(8) [symmetric] by simp
    moreover have "of_nat (0x80 + d) = b3" using r(9) [symmetric] by simp
    moreover have "of_nat (0xF0 + a) = b0" using r(6) b0 by simp
    ultimately show ?thesis
      using enc4 [OF r(1,2,3,4,5)] Cons rest
      by (simp add: utf8_enc1_def cp')
  next
    case bad
    with assms Cons show ?thesis
      by (auto simp: n0_def Let_def split: if_splits)
  qed
qed

lemma utf8_decode_bytes:
  "utf8_decode bs = Some cps \<Longrightarrow> bs = concat (map utf8_enc1 cps)"
proof (induction bs arbitrary: cps rule: utf8_decode.induct)
  case (1 bs)
  show ?case
  proof (cases "bs = []")
    case True
    with "1.prems" show ?thesis by (simp add: utf8_decode.simps)
  next
    case False
    with "1.prems" obtain cp r cps' where h: "utf8_head bs = Some (cp, r)"
      and d: "utf8_decode r = Some cps'" and c: "cps = cp # cps'"
      by (subst (asm) utf8_decode.simps) (auto split: option.splits)
    from "1.IH" [OF False h refl d] utf8_head_enc [OF h] c
    show ?thesis by simp
  qed
qed

lemma utf8_decode_inj:
  "utf8_decode bs = Some cps \<Longrightarrow> utf8_decode bs' = Some cps \<Longrightarrow> bs = bs'"
  by (drule utf8_decode_bytes)+ simp

section \<open>A changed ciphertext byte changes the plaintext byte\<close>

lemma length_xor_keystream [simp]: "length (xor_keystream ks bs) = length bs"
  by (simp add: xor_keystream_def)

lemma nth_xor_keystream: "i < length bs \<Longrightarrow> xor_keystream ks bs ! i = bs ! i XOR block_byte ks i"
  by (simp add: xor_keystream_def)

lemma xor_cancel: "(a XOR k) XOR k = (a :: byte)"
  by (simp add: xor.assoc)

lemma xor_same_key: "(b XOR k = c XOR k) = (b = (c :: byte))"
  by (metis xor_cancel)

lemma xor_keystream_twice [simp]: "xor_keystream ks (xor_keystream ks bs) = bs"
  by (rule nth_equalityI) (simp_all add: nth_xor_keystream xor_cancel)

lemma length_cfb_decrypt [simp]: "length (cfb_decrypt E f cs) = length cs"
proof (induction E f cs rule: cfb_decrypt.induct)
  case (1 E f cs)
  show ?case
  proof (cases "cs = []")
    case True
    then show ?thesis by (simp add: cfb_decrypt.simps)
  next
    case False
    with 1 show ?thesis
      by (subst cfb_decrypt.simps) simp
  qed
qed

lemma cfb_roundtrip: "cfb_decrypt E f (cfb_encrypt E f ps) = ps"
proof (induction E f ps rule: cfb_encrypt.induct)
  case (1 E f ps)
  show ?case
  proof (cases "ps = []")
    case True
    then show ?thesis by (simp add: cfb_decrypt.simps cfb_encrypt.simps)
  next
    case False
    define c where "c = xor_keystream (E f) (take 16 ps)"
    have lc: "length c = min (length ps) 16" by (simp add: c_def)
    have enc: "cfb_encrypt E f ps = c @ cfb_encrypt E (block_of_bytes c) (drop 16 ps)"
      using False by (subst cfb_encrypt.simps) (simp add: c_def Let_def)
    have t: "take 16 (cfb_encrypt E f ps) = c"
      unfolding enc using lc by (cases "length ps \<le> 16") (simp_all add: cfb_encrypt.simps)
    have d: "drop 16 (cfb_encrypt E f ps) = cfb_encrypt E (block_of_bytes c) (drop 16 ps)"
      unfolding enc using lc by (cases "length ps \<le> 16") (simp_all add: cfb_encrypt.simps)
    have "0 < length ps" using False by simp
    then have "0 < length c" unfolding lc by simp
    then have "c \<noteq> []" by auto
    then have ne: "cfb_encrypt E f ps \<noteq> []"
      unfolding enc by simp
    have "cfb_decrypt E f (cfb_encrypt E f ps) =
            xor_keystream (E f) c @
            cfb_decrypt E (block_of_bytes c) (cfb_encrypt E (block_of_bytes c) (drop 16 ps))"
      using ne by (subst cfb_decrypt.simps) (simp add: t d)
    also have "\<dots> = take 16 ps @ drop 16 ps"
      using "1.IH" [OF False c_def] by (simp add: c_def)
    finally show ?thesis by simp
  qed
qed

lemma cfb_tamper:
  "i < length cs \<Longrightarrow> b \<noteq> cs ! i \<Longrightarrow>
     cfb_decrypt E f (cs[i := b]) ! i \<noteq> cfb_decrypt E f cs ! i"
proof (induction E f cs arbitrary: i rule: cfb_decrypt.induct)
  case (1 E f cs)
  from "1.prems" have ne: "cs \<noteq> []" "cs[i := b] \<noteq> []" by auto
  have e1: "cfb_decrypt E f cs = xor_keystream (E f) (take 16 cs) @
           cfb_decrypt E (block_of_bytes (take 16 cs)) (drop 16 cs)"
    using ne by (subst cfb_decrypt.simps) simp
  have e2: "cfb_decrypt E f (cs[i := b]) = xor_keystream (E f) (take 16 (cs[i := b])) @
           cfb_decrypt E (block_of_bytes (take 16 (cs[i := b]))) (drop 16 (cs[i := b]))"
    using ne by (subst cfb_decrypt.simps) simp
  show ?case
  proof (cases "i < 16")
    case True
    with "1.prems" have "i < length (take 16 cs)" by simp
    then show ?thesis
      using "1.prems" True unfolding e1 e2
      by (simp add: nth_append nth_xor_keystream take_update_swap xor_same_key)
  next
    case False
    then have t: "take 16 (cs[i := b]) = take 16 cs" by simp
    have d: "drop 16 (cs[i := b]) = (drop 16 cs)[i - 16 := b]"
      using False by (simp add: drop_update_swap)
    have "i - 16 < length (drop 16 cs)" "b \<noteq> drop 16 cs ! (i - 16)"
      using "1.prems" False by simp_all
    from "1.IH" [OF ne(1) this]
    show ?thesis
      unfolding e1 e2 t d using False "1.prems" by (simp add: nth_append)
  qed
qed

section \<open>Encoding and decoding UTF-8; encrypting and decrypting\<close>

lemma unat_byte: "n < 256 \<Longrightarrow> unat (of_nat n :: byte) = n"
  by (simp add: unat_of_nat)

lemma split64: "(cp :: nat) = cp div 64 * 64 + cp mod 64"
  by simp

lemma split4096: "(cp :: nat) = cp div 4096 * 4096 + cp div 64 mod 64 * 64 + cp mod 64"
proof -
  have "cp div 64 = cp div 64 div 64 * 64 + cp div 64 mod 64" by simp
  moreover have "cp div 64 div 64 = cp div 4096" by (simp add: div_mult2_eq [symmetric])
  ultimately have "cp div 64 = cp div 4096 * 64 + cp div 64 mod 64" by simp
  then have "cp div 64 * 64 = cp div 4096 * 4096 + cp div 64 mod 64 * 64" by simp
  with split64 [of cp] show ?thesis by linarith
qed

lemma split262144:
  "(cp :: nat) = cp div 262144 * 262144 + cp div 4096 mod 64 * 4096 + cp div 64 mod 64 * 64 +
     cp mod 64"
proof -
  have "cp div 4096 = cp div 4096 div 64 * 64 + cp div 4096 mod 64" by simp
  moreover have "cp div 4096 div 64 = cp div 262144" by (simp add: div_mult2_eq [symmetric])
  ultimately have "cp div 4096 * 4096 = cp div 262144 * 262144 + cp div 4096 mod 64 * 4096"
    by simp
  with split4096 [of cp] show ?thesis by linarith
qed

lemma utf8_head_enc1:
  assumes "valid_cp cp"
  shows "utf8_head (utf8_enc1 cp @ r) = Some (cp, r)"
proof -
  consider (one) "cp < 0x80" | (two) "0x80 \<le> cp" "cp < 0x800"
    | (three) "0x800 \<le> cp" "cp < 0x10000" | (four) "0x10000 \<le> cp"
    by linarith
  then show ?thesis
  proof cases
    case one
    define B0 :: byte where "B0 = of_nat cp"
    have u: "unat B0 = cp" unfolding B0_def using one by (intro unat_byte) linarith
    have e: "utf8_enc1 cp = [B0]" using one by (simp add: utf8_enc1_def B0_def)
    show ?thesis unfolding e using one by (simp add: u Let_def)
  next
    case two
    define a d where "a = cp div 64" and "d = cp mod 64"
    have cp: "cp = a * 64 + d" and d: "d < 64" by (simp_all add: a_def d_def)
    have a: "2 \<le> a" "a < 32" using two cp d by linarith+
    define B0 B1 :: byte where "B0 = of_nat (0xC0 + a)" and "B1 = of_nat (0x80 + d)"
    have u: "unat B0 = 0xC0 + a" "unat B1 = 0x80 + d"
      unfolding B0_def B1_def using a d by (intro unat_byte; linarith)+
    have e: "utf8_enc1 cp = [B0, B1]"
      using two by (simp add: utf8_enc1_def a_def d_def B0_def B1_def)
    show ?thesis
      unfolding e using a d by (simp add: u is_cont_def Let_def cp)
  next
    case three
    define a b c where "a = cp div 4096" and "b = cp div 64 mod 64" and "c = cp mod 64"
    have cp: "cp = a * 4096 + b * 64 + c" and bc: "b < 64" "c < 64"
      using split4096 [of cp] by (simp_all add: a_def b_def c_def)
    have a: "a < 16" "a = 0 \<Longrightarrow> 32 \<le> b" "a = 13 \<Longrightarrow> b < 32"
      using three cp bc assms by (auto simp: valid_cp_def)
    define B0 B1 B2 :: byte where "B0 = of_nat (0xE0 + a)" and "B1 = of_nat (0x80 + b)"
      and "B2 = of_nat (0x80 + c)"
    have u: "unat B0 = 0xE0 + a" "unat B1 = 0x80 + b" "unat B2 = 0x80 + c"
      unfolding B0_def B1_def B2_def using a(1) bc by (intro unat_byte; linarith)+
    have e: "utf8_enc1 cp = [B0, B1, B2]"
      using three by (simp add: utf8_enc1_def a_def b_def c_def B0_def B1_def B2_def)
    show ?thesis
      unfolding e using a bc by (auto simp: u is_cont_def Let_def cp)
  next
    case four
    define a b c d where "a = cp div 262144" and "b = cp div 4096 mod 64"
      and "c = cp div 64 mod 64" and "d = cp mod 64"
    have cp: "cp = a * 262144 + b * 4096 + c * 64 + d" and bcd: "b < 64" "c < 64" "d < 64"
      using split262144 [of cp] by (simp_all add: a_def b_def c_def d_def)
    have le: "cp \<le> 0x10FFFF" using four assms by (simp add: valid_cp_def)
    have a: "a < 5" "a = 0 \<Longrightarrow> 16 \<le> b" "a = 4 \<Longrightarrow> b < 16"
      using four cp bcd le by auto
    define B0 B1 B2 B3 :: byte where "B0 = of_nat (0xF0 + a)" and "B1 = of_nat (0x80 + b)"
      and "B2 = of_nat (0x80 + c)" and "B3 = of_nat (0x80 + d)"
    have u: "unat B0 = 0xF0 + a" "unat B1 = 0x80 + b" "unat B2 = 0x80 + c" "unat B3 = 0x80 + d"
      unfolding B0_def B1_def B2_def B3_def using a(1) bcd by (intro unat_byte; linarith)+
    have e: "utf8_enc1 cp = [B0, B1, B2, B3]"
      using four
      by (simp add: utf8_enc1_def a_def b_def c_def d_def B0_def B1_def B2_def B3_def)
    show ?thesis
      unfolding e using a bcd by (auto simp: u is_cont_def Let_def cp)
  qed
qed

lemma utf8_enc1_nonempty: "utf8_enc1 cp \<noteq> []"
  by (simp add: utf8_enc1_def)

lemma utf8_decode_encoded:
  "list_all valid_cp cps \<Longrightarrow> utf8_decode (concat (map utf8_enc1 cps)) = Some cps"
proof (induction cps)
  case Nil
  then show ?case by (simp add: utf8_decode.simps)
next
  case (Cons cp cps)
  then have v: "valid_cp cp" and ih: "utf8_decode (concat (map utf8_enc1 cps)) = Some cps"
    by simp_all
  have "utf8_decode (utf8_enc1 cp @ concat (map utf8_enc1 cps)) = Some (cp # cps)"
    by (subst utf8_decode.simps) (simp add: utf8_enc1_nonempty utf8_head_enc1 [OF v] ih)
  then show ?case by simp
qed

lemma utf8_roundtrip: "utf8_encode M = Some bs \<Longrightarrow> utf8_decode bs = Some M"
  by (auto simp: utf8_encode_def utf8_decode_encoded split: if_splits)

text \<open>
  With a key pair that matches and encodings that decode what they encoded, the peer's
  engine reads back the text that \<open>encrypt_message\<close> was given.
\<close>

lemma encrypt_then_decrypt:
  assumes "load_peer_key sender peer = (Some pk, sender')"
    and "private_key receiver = Some sk"
    and "rsa_decrypt C sk (rsa_encrypt C pk seed aes_key) = Some aes_key"
    and "length aes_key = 32" and "length ivb = 16"
    and "\<And>p. json_loads C (json_dumps C p) = Some p"
    and "\<And>x. b64decode C (b64encode C x) = Some x"
    and "list_all valid_cp M"
  shows "\<exists>env. encrypt_message C sender aes_key ivb seed M peer = (Inr (Some env), sender') \<and>
               decrypt_message C receiver env = Some M"
proof -
  define bs where "bs = concat (map utf8_enc1 M)"
  have enc: "utf8_encode M = Some bs"
    using assms(8) by (simp add: utf8_encode_def bs_def)
  define env where "env = json_dumps C
     \<lparr>encrypted_key = b64encode C (rsa_encrypt C pk seed aes_key), iv = b64encode C ivb,
       ciphertext = b64encode C
         (cfb_encrypt (aes_encrypt_block C aes_key) (block_of_bytes ivb) bs)\<rparr>"
  have 1: "encrypt_message C sender aes_key ivb seed M peer = (Inr (Some env), sender')"
    using assms(1,4,5) enc by (simp add: encrypt_message_def env_def Let_def)
  have "decrypt_message C receiver env =
          utf8_decode (cfb_decrypt (aes_encrypt_block C aes_key) (block_of_bytes ivb)
            (cfb_encrypt (aes_encrypt_block C aes_key) (block_of_bytes ivb) bs))"
    using assms(2,3,4,5) by (simp add: decrypt_message_def env_def assms(6,7))
  then have 2: "decrypt_message C receiver env = Some M"
    using utf8_roundtrip [OF enc] by (simp add: cfb_roundtrip)
  from 1 2 show ?thesis by blast
qed

section \<open>Tampering with an envelope\<close>

lemma decrypt_message_eq:
  assumes "private_key m = Some sk"
    and "json_loads C env = Some pkg"
    and "b64decode C (encrypted_key pkg) = Some ek"
    and "b64decode C (iv pkg) = Some ivb"
    and "b64decode C (ciphertext pkg) = Some ct"
    and "rsa_decrypt C sk ek = Some aes_key"
    and "length aes_key \<in> {16, 24, 32}" and "length ivb = 16"
  shows "decrypt_message C m env =
           utf8_decode (cfb_decrypt (aes_encrypt_block C aes_key) (block_of_bytes ivb) ct)"
  using assms by (simp add: decrypt_message_def)

lemma decrypt_message_Some:
  assumes "decrypt_message C m env = Some M"
  obtains sk pkg ek ivb ct aes_key where
    "private_key m = Some sk" "json_loads C env = Some pkg"
    "b64decode C (encrypted_key pkg) = Some ek" "b64decode C (iv pkg) = Some ivb"
    "b64decode C (ciphertext pkg) = Some ct" "rsa_decrypt C sk ek = Some aes_key"
    "length aes_key \<in> {16, 24, 32}" "length ivb = 16"
  using assms by (auto simp: decrypt_message_def split: option.splits if_splits)

lemma cfb_decrypt_one:
  "cfb_decrypt E f [c] = [c XOR block_byte (E f) 0]"
  by (simp add: cfb_decrypt.simps xor_keystream_def)

lemma example_envelopes:
  "decrypt_message (example_crypto E)
     \<lparr>private_key = Some 7, public_key = Some 8, peer_keys = Map.empty,
       peer_key_files = Map.empty\<rparr> ''envelope'' =
     Some [0x41]"
  "decrypt_message (example_crypto E)
     \<lparr>private_key = Some 7, public_key = Some 8, peer_keys = Map.empty,
       peer_key_files = Map.empty\<rparr> ''tampered'' =
     Some [0x42]"
  by (simp_all add: decrypt_message_def example_crypto_def example_iv_def cfb_decrypt_one
        xor_cancel utf8_decode.simps)

text \<open>
  C4 (as the code has it): the ciphertext is not authenticated. When one byte of the
  ciphertext of an envelope that decrypts to \<open>M\<close> is changed, \<open>decrypt_message\<close> still
  returns without raising, and what it returns is the UTF-8 decoding of the CFB decryption
  of the changed bytes: \<open>None\<close> when those are not valid UTF-8, a text otherwise, and in
  both cases not \<open>M\<close>.
\<close>

theorem tampered_envelope_never_decrypts_to_original:
  assumes "decrypt_message C m env = Some M"
    and "json_loads C env = Some pkg"
    and "b64decode C (ciphertext pkg) = Some ct"
    and "json_loads C env' = Some (pkg\<lparr>ciphertext := c64\<rparr>)"
    and "b64decode C c64 = Some (ct[i := b])"
    and "i < length ct" and "b \<noteq> ct ! i"
  shows "decrypt_message C m env' \<noteq> Some M \<and>
         (\<exists>aes_key ivb.
            decrypt_message C m env' =
              utf8_decode (cfb_decrypt (aes_encrypt_block C aes_key) (block_of_bytes ivb)
                             (ct[i := b])))"
proof -
  from assms(1) obtain sk pkg0 ek ivb ct0 aes_key where
    d: "private_key m = Some sk" "json_loads C env = Some pkg0"
    "b64decode C (encrypted_key pkg0) = Some ek" "b64decode C (iv pkg0) = Some ivb"
    "b64decode C (ciphertext pkg0) = Some ct0" "rsa_decrypt C sk ek = Some aes_key"
    "length aes_key \<in> {16, 24, 32}" "length ivb = 16"
    by (rule decrypt_message_Some)
  from d(2,5) assms(2,3) have same: "pkg0 = pkg" "ct0 = ct" by simp_all
  let ?E = "aes_encrypt_block C aes_key" and ?f = "block_of_bytes ivb"
  have orig: "utf8_decode (cfb_decrypt ?E ?f ct) = Some M"
    using decrypt_message_eq [OF d] assms(1) same by simp
  have tam: "decrypt_message C m env' = utf8_decode (cfb_decrypt ?E ?f (ct[i := b]))"
    using d same assms(5)
    by (intro decrypt_message_eq [OF d(1) assms(4)]) simp_all
  have "cfb_decrypt ?E ?f (ct[i := b]) \<noteq> cfb_decrypt ?E ?f ct"
    using cfb_tamper [OF assms(6,7), of ?E ?f] by auto
  then have "utf8_decode (cfb_decrypt ?E ?f (ct[i := b])) \<noteq> Some M"
    using orig utf8_decode_inj by blast
  with tam show ?thesis by auto
qed

theorem tampered_envelope_never_decrypts_to_original_witness:
  "decrypt_message (example_crypto (\<lambda>k x. x + 1))
     \<lparr>private_key = Some 7, public_key = Some 8, peer_keys = Map.empty,
       peer_key_files = Map.empty\<rparr> ''envelope'' =
     Some [0x41] \<and>
   decrypt_message (example_crypto (\<lambda>k x. x + 1))
     \<lparr>private_key = Some 7, public_key = Some 8, peer_keys = Map.empty,
       peer_key_files = Map.empty\<rparr> ''tampered'' \<noteq>
     Some [0x41]"
proof -
  let ?C = "example_crypto (\<lambda>k x. x + 1)"
  let ?m = "\<lparr>private_key = Some 7, public_key = Some 8, peer_keys = Map.empty,
       peer_key_files = Map.empty\<rparr>"
  let ?c = "0x41 XOR block_byte (block_of_bytes example_iv + 1) 0 :: byte"
  let ?c' = "0x42 XOR block_byte (block_of_bytes example_iv + 1) 0 :: byte"
  have 1: "decrypt_message ?C ?m ''envelope'' = Some [0x41]"
    by (rule example_envelopes(1))
  have 2: "json_loads ?C ''envelope'' =
             Some \<lparr>encrypted_key = ''KEY'', iv = ''IV'', ciphertext = ''CT''\<rparr>"
    and 3: "b64decode ?C
              (ciphertext \<lparr>encrypted_key = ''KEY'', iv = ''IV'', ciphertext = ''CT''\<rparr>) =
              Some [?c]"
    and 4: "json_loads ?C ''tampered'' =
              Some (\<lparr>encrypted_key = ''KEY'', iv = ''IV'', ciphertext = ''CT''\<rparr>
                      \<lparr>ciphertext := ''CT2''\<rparr>)"
    and 5: "b64decode ?C ''CT2'' = Some ([?c][0 := ?c'])"
    by (simp_all add: example_crypto_def)
  have 6: "0 < length [?c]" by simp
  have 7: "?c' \<noteq> [?c] ! 0"
    by (simp add: xor_same_key)
  from tampered_envelope_never_decrypts_to_original [OF 1 2 3 4 5 6 7] 1
  show ?thesis by blast
qed

text \<open>
  C4, counterexample. The claim that a tampered envelope is unreadable fails: with any AES block function,
  changing the single ciphertext byte of an envelope that holds \<open>A\<close> makes
  \<open>decrypt_message\<close> return the text \<open>B\<close>, not \<open>None\<close>.
\<close>

theorem tampered_envelope_decrypts_to_other_text:
  "\<forall>E. decrypt_message (example_crypto E)
          \<lparr>private_key = Some 7, public_key = Some 8, peer_keys = Map.empty,
       peer_key_files = Map.empty\<rparr> ''envelope'' =
          Some [0x41] \<and>
        decrypt_message (example_crypto E)
          \<lparr>private_key = Some 7, public_key = Some 8, peer_keys = Map.empty,
       peer_key_files = Map.empty\<rparr> ''tampered'' =
          Some [0x42]"
  by (simp add: example_envelopes)

end
